theory Spec2Isabelle
  imports Complex_Main
begin

section \<open>Agent memory manager (app/core/agent\_memory.py)\<close>

text \<open>
  The development embeds \<open>AgentMemoryManager\<close>: the two SQLite tables, the in-memory
  \<open>networkx.DiGraph\<close> mirror and the methods that read and write them.

  Conventions of the embedding.
  \<^item> Text is a list of characters with code points below 256. On these \<open>str.lower\<close>
    changes the letters A to Z and the accented capitals 0xC0 to 0xDE (but not the
    multiplication sign 0xD7), each to the character 32 places on.
  \<^item> A \<open>datetime\<close> is the number of microseconds since 0001-01-01T00:00:00. The tables
    hold \<open>isoformat()\<close> text, whose fields are zero padded and of fixed width, so the
    text order SQLite compares by is the order of these numbers.
  \<^item> The JSON columns hold the JSON value itself: \<open>json.loads\<close> after \<open>json.dumps\<close>
    gives a JSON value back unchanged.
  \<^item> The sentence-transformer and the floating-point cosine are parameters: \<open>encode\<close>
    gives no vector when the model raises, and the similarity is no number when numpy
    yields NaN.
  \<^item> \<open>datetime.now()\<close> reads a clock \<open>clk\<close>; the state counts the readings made so far.
  \<^item> A table is the list of its rows in insertion order (the order of the
    autoincremented \<open>id\<close>, which no query mentions).
\<close>

subsection \<open>Strings\<close>

fun startswith :: "string \<Rightarrow> string \<Rightarrow> bool" where
  "startswith [] hay = True"
| "startswith (x # xs) [] = False"
| "startswith (x # xs) (y # ys) = (x = y \<and> startswith xs ys)"

text \<open>Python's \<open>needle in hay\<close> on strings.\<close>

fun contains :: "string \<Rightarrow> string \<Rightarrow> bool" where
  "contains needle [] = (needle = [])"
| "contains needle (c # cs) = (startswith needle (c # cs) \<or> contains needle cs)"

definition lower_char :: "char \<Rightarrow> char" where
  "lower_char c =
     (let n = (of_char c :: nat)
      in if (65 \<le> n \<and> n \<le> 90) \<or> (192 \<le> n \<and> n \<le> 222 \<and> n \<noteq> 215) then char_of (n + 32)
         else c)"

definition lower :: "string \<Rightarrow> string" where
  "lower s = map lower_char s"

text \<open>
  The characters \<open>\s\<close> matches in a \<open>str\<close> pattern, among those below 256: tab to carriage
  return, the four separators 0x1C to 0x1F, the space, next line 0x85 and the no-break
  space 0xA0. \<open>\d\<close> matches the ten digits only.
\<close>

definition is_space :: "char \<Rightarrow> bool" where
  "is_space c =
     (let n = (of_char c :: nat)
      in (9 \<le> n \<and> n \<le> 13) \<or> (28 \<le> n \<and> n \<le> 32) \<or> n = 133 \<or> n = 160)"

definition is_digit :: "char \<Rightarrow> bool" where
  "is_digit c = (let n = (of_char c :: nat) in 48 \<le> n \<and> n \<le> 57)"

definition digit_char :: "nat \<Rightarrow> char" where
  "digit_char d = char_of (48 + d)"

function str_nat :: "nat \<Rightarrow> string" where
  "str_nat n = (if n < 10 then [digit_char n] else str_nat (n div 10) @ [digit_char (n mod 10)])"
  by pat_completeness auto
termination
  by (relation "measure (\<lambda>n. n)") auto

declare str_nat.simps [simp del]

text \<open>\<open>str(i)\<close> for a Python integer, as the f-string \<open>f"{user_id}:{source}"\<close> renders it.\<close>

definition str_int :: "int \<Rightarrow> string" where
  "str_int i = (if i < 0 then CHR ''-'' # str_nat (nat (- i)) else str_nat (nat i))"

definition user_node :: "int \<Rightarrow> string \<Rightarrow> string" where
  "user_node user_id label = str_int user_id @ '':'' @ label"

text \<open>\<open>neighbor.split(":", 1)[1] if ":" in neighbor else neighbor\<close>\<close>

definition clean_concept :: "string \<Rightarrow> string" where
  "clean_concept neighbor =
     (if CHR '':'' \<in> set neighbor then tl (dropWhile (\<lambda>c. c \<noteq> CHR '':'') neighbor)
      else neighbor)"

subsection \<open>The directed graph of networkx\<close>

text \<open>
  \<open>nx.DiGraph\<close> keeps a dictionary from each node to the dictionary of its successors,
  which holds one attribute dictionary per successor. Both dictionaries keep insertion
  order. \<open>add_edge(u, v, **attr)\<close> adds the missing nodes and then updates the attribute
  dictionary of the pair \<open>(u, v)\<close>; the manager always passes both attributes.
\<close>

record edge_data =
  edge_relationship :: string
  edge_weight :: rat

type_synonym adjacency = "(string \<times> edge_data) list"
type_synonym digraph = "(string \<times> adjacency) list"

definition has_node :: "digraph \<Rightarrow> string \<Rightarrow> bool" where
  "has_node g n = (n \<in> set (map fst g))"

definition add_node :: "digraph \<Rightarrow> string \<Rightarrow> digraph" where
  "add_node g n = (if has_node g n then g else g @ [(n, [])])"

definition set_successor :: "adjacency \<Rightarrow> string \<Rightarrow> edge_data \<Rightarrow> adjacency" where
  "set_successor adj v d =
     (if v \<in> set (map fst adj) then map (\<lambda>(k, x). if k = v then (k, d) else (k, x)) adj
      else adj @ [(v, d)])"

definition add_edge :: "digraph \<Rightarrow> string \<Rightarrow> string \<Rightarrow> edge_data \<Rightarrow> digraph" where
  "add_edge g u v d =
     map (\<lambda>(n, adj). if n = u then (n, set_successor adj v d) else (n, adj))
       (add_node (add_node g u) v)"

definition successors :: "digraph \<Rightarrow> string \<Rightarrow> adjacency" where
  "successors g n = (case map_of g n of None \<Rightarrow> [] | Some adj \<Rightarrow> adj)"

definition neighbors :: "digraph \<Rightarrow> string \<Rightarrow> string list" where
  "neighbors g n = map fst (successors g n)"

definition get_edge_data :: "digraph \<Rightarrow> string \<Rightarrow> string \<Rightarrow> edge_data option" where
  "get_edge_data g u v = map_of (successors g u) v"

subsection \<open>Tables and state\<close>

datatype json =
    JNull
  | JBool bool
  | JInt int
  | JStr string
  | JList "json list"
  | JObj "(string \<times> json) list"

text \<open>
  What a call can raise: the embedding model failing, Python's \<open>OverflowError\<close> (a date
  out of range, an integer beyond SQLite's 64 bits) and the error of \<open>sqlite3\<close> for a
  parameter of a type it cannot bind.
\<close>

datatype error = EmbeddingUnavailable | OverflowError | BindingError

text \<open>The dataclass \<open>MemoryEntry\<close>.\<close>

record 'v MemoryEntry =
  user_id :: int
  content :: string
  memory_type :: string
  metadata :: json
  timestamp :: int
  embedding :: "'v option"

text \<open>A row of \<open>memory_entries\<close>; the embedding column is written from the computed vector.\<close>

record 'v memory_row =
  row_user_id :: int
  row_content :: string
  row_memory_type :: string
  row_metadata :: json
  row_timestamp :: int
  row_embedding :: 'v

text \<open>What a \<open>TEXT\<close> column holds: text, or \<open>NULL\<close>.\<close>

datatype column = Null | Text string

text \<open>A row of the table \<open>knowledge_graph\<close>.\<close>

record graph_row =
  kg_user_id :: int
  source_node :: string
  target_node :: column
  relationship :: string
  weight :: rat
  kg_timestamp :: int

record 'v world =
  memory_entries :: "'v memory_row list"
  knowledge_graph_rows :: "graph_row list"
  knowledge_graph :: digraph
  ticks :: nat

definition init_world :: "'v world" where
  "init_world = \<lparr>memory_entries = [], knowledge_graph_rows = [], knowledge_graph = [], ticks = 0\<rparr>"

definition datetime_now :: "(nat \<Rightarrow> int) \<Rightarrow> 'v world \<Rightarrow> int \<times> 'v world" where
  "datetime_now clk s = (clk (ticks s), s\<lparr>ticks := Suc (ticks s)\<rparr>)"

subsection \<open>Writes\<close>

definition store_entry ::
  "(string \<Rightarrow> 'v option) \<Rightarrow> 'v MemoryEntry \<Rightarrow> 'v world \<Rightarrow> (error + unit) \<times> 'v world" where
  "store_entry encode entry s =
     (case encode (content entry) of
        None \<Rightarrow> (Inl EmbeddingUnavailable, s)
      | Some v \<Rightarrow>
          (Inr (),
           s\<lparr>memory_entries := memory_entries s @
               [\<lparr>row_user_id = user_id entry, row_content = content entry,
                 row_memory_type = memory_type entry, row_metadata = metadata entry,
                 row_timestamp = timestamp entry, row_embedding = v\<rparr>]\<rparr>))"

text \<open>
  \<open>_add_to_graph\<close> receives its target from callers that pass text, and from
  \<open>store_episodic\<close>, which passes whatever value the result dictionary holds. The value is
  bound to the \<open>TEXT\<close> column \<open>target_node\<close> and rendered by the f-string of the mirror's
  node key. \<open>sqlite3\<close> binds \<open>None\<close> as \<open>NULL\<close>, a \<open>bool\<close> as the integer 1 or 0 and an
  integer within 64 bits as itself, which the column's text affinity stores as decimal
  text; it raises \<open>OverflowError\<close> on a larger integer and refuses a list or a dictionary.
  The f-string renders \<open>None\<close>, \<open>True\<close> and \<open>False\<close> by their names. Floating-point values
  are left out of the value type.
\<close>

definition target_forms :: "json \<Rightarrow> error + column \<times> string" where
  "target_forms target =
     (case target of
        JNull \<Rightarrow> Inr (Null, ''None'')
      | JBool b \<Rightarrow> Inr (Text (if b then ''1'' else ''0''), if b then ''True'' else ''False'')
      | JInt i \<Rightarrow>
          if - (2 ^ 63) \<le> i \<and> i < 2 ^ 63 then Inr (Text (str_int i), str_int i)
          else Inl OverflowError
      | JStr t \<Rightarrow> Inr (Text t, t)
      | JList xs \<Rightarrow> Inl BindingError
      | JObj kvs \<Rightarrow> Inl BindingError)"

definition add_to_graph_value ::
  "(nat \<Rightarrow> int) \<Rightarrow> int \<Rightarrow> string \<Rightarrow> json \<Rightarrow> string \<Rightarrow> rat \<Rightarrow> 'v world
     \<Rightarrow> (error + unit) \<times> 'v world" where
  "add_to_graph_value clk uid source target rel w s =
     (let (now, s1) = datetime_now clk s
      in case target_forms target of
           Inl e \<Rightarrow> (Inl e, s1)
         | Inr (bound, shown) \<Rightarrow>
             (let s2 = s1\<lparr>knowledge_graph_rows := knowledge_graph_rows s1 @
                         [\<lparr>kg_user_id = uid, source_node = source, target_node = bound,
                           relationship = rel, weight = w, kg_timestamp = now\<rparr>]\<rparr>
              in (Inr (),
                  s2\<lparr>knowledge_graph :=
                       add_edge (knowledge_graph s2) (user_node uid source) (user_node uid shown)
                         \<lparr>edge_relationship = rel, edge_weight = w\<rparr>\<rparr>)))"

text \<open>\<open>_add_to_graph\<close> with a target that is text: it cannot raise.\<close>

definition add_to_graph ::
  "(nat \<Rightarrow> int) \<Rightarrow> int \<Rightarrow> string \<Rightarrow> string \<Rightarrow> string \<Rightarrow> rat \<Rightarrow> 'v world \<Rightarrow> 'v world" where
  "add_to_graph clk uid source target rel w s =
     (let (now, s1) = datetime_now clk s;
          s2 = s1\<lparr>knowledge_graph_rows := knowledge_graph_rows s1 @
                 [\<lparr>kg_user_id = uid, source_node = source, target_node = Text target,
                   relationship = rel, weight = w, kg_timestamp = now\<rparr>]\<rparr>
      in s2\<lparr>knowledge_graph :=
               add_edge (knowledge_graph s2) (user_node uid source) (user_node uid target)
                 \<lparr>edge_relationship = rel, edge_weight = w\<rparr>\<rparr>)"

definition store_conversation ::
  "(string \<Rightarrow> 'v option) \<Rightarrow> (nat \<Rightarrow> int) \<Rightarrow> int \<Rightarrow> string \<Rightarrow> string \<Rightarrow> string list option
     \<Rightarrow> 'v world \<Rightarrow> (error + unit) \<times> 'v world" where
  "store_conversation encode clk uid user_message ai_response tools_used s =
     (let conversation_data =
            JObj [(''user_message'', JStr user_message),
                  (''ai_response'', JStr ai_response),
                  (''tools_used'',
                     JList (map JStr (case tools_used of None \<Rightarrow> [] | Some ts \<Rightarrow> ts)))];
          (now, s1) = datetime_now clk s;
          entry = \<lparr>user_id = uid,
                   content = ''User: '' @ user_message @ [CHR 0x0A] @ ''AI: '' @ ai_response,
                   memory_type = ''conversation'', metadata = conversation_data,
                   timestamp = now, embedding = None\<rparr>
      in store_entry encode entry s1)"

text \<open>
  \<open>if key in result: self._add_to_graph(user_id, action, result[key], rel)\<close>, for the two
  keys of \<open>store_episodic\<close>.
\<close>

definition link_from_result ::
  "(nat \<Rightarrow> int) \<Rightarrow> int \<Rightarrow> string \<Rightarrow> (string \<times> json) list \<Rightarrow> string \<Rightarrow> string
     \<Rightarrow> 'v world \<Rightarrow> (error + unit) \<times> 'v world" where
  "link_from_result clk uid action result key rel s =
     (case map_of result key of
        None \<Rightarrow> (Inr (), s)
      | Some target \<Rightarrow> add_to_graph_value clk uid action target rel 1 s)"

definition store_episodic ::
  "(string \<Rightarrow> 'v option) \<Rightarrow> (nat \<Rightarrow> int) \<Rightarrow> int \<Rightarrow> string \<Rightarrow> (string \<times> json) list
     \<Rightarrow> 'v world \<Rightarrow> (error + unit) \<times> 'v world" where
  "store_episodic encode clk uid action result s =
     (let (now, s1) = datetime_now clk s;
          entry = \<lparr>user_id = uid, content = ''Action: '' @ action,
                   memory_type = ''episodic'', metadata = JObj result,
                   timestamp = now, embedding = None\<rparr>
      in case store_entry encode entry s1 of
           (Inl e, s2) \<Rightarrow> (Inl e, s2)
         | (Inr _, s2) \<Rightarrow>
             (case link_from_result clk uid action result ''youtube_link'' ''created_link'' s2 of
                (Inl e, s3) \<Rightarrow> (Inl e, s3)
              | (Inr _, s3) \<Rightarrow>
                  link_from_result clk uid action result ''playlist_name''
                    ''created_playlist'' s3))"

definition store_semantic ::
  "(string \<Rightarrow> 'v option) \<Rightarrow> (nat \<Rightarrow> int) \<Rightarrow> int \<Rightarrow> string \<Rightarrow> string list
     \<Rightarrow> 'v world \<Rightarrow> (error + unit) \<times> 'v world" where
  "store_semantic encode clk uid concept related_concepts s =
     (let (now, s1) = datetime_now clk s;
          entry = \<lparr>user_id = uid, content = concept, memory_type = ''semantic'',
                   metadata = JObj [(''related_concepts'', JList (map JStr related_concepts))],
                   timestamp = now, embedding = None\<rparr>
      in case store_entry encode entry s1 of
           (Inl e, s2) \<Rightarrow> (Inl e, s2)
         | (Inr _, s2) \<Rightarrow>
             (Inr (),
              fold (\<lambda>related. add_to_graph clk uid concept related ''related_to'' 1)
                related_concepts s2))"

definition link_concepts ::
  "(nat \<Rightarrow> int) \<Rightarrow> int \<Rightarrow> string \<Rightarrow> string \<Rightarrow> string \<Rightarrow> 'v world \<Rightarrow> 'v world" where
  "link_concepts clk uid source_concept target_concept rel s =
     (let s1 = add_to_graph clk uid source_concept target_concept rel 1 s;
          reverse_rel = ''reverse_'' @ rel
      in add_to_graph clk uid target_concept source_concept reverse_rel 1 s1)"

definition link_resource ::
  "(nat \<Rightarrow> int) \<Rightarrow> int \<Rightarrow> string \<Rightarrow> string \<Rightarrow> 'v world \<Rightarrow> 'v world" where
  "link_resource clk uid concept resource s =
     (if contains ''youtube'' resource \<or> contains ''video'' resource
        then link_concepts clk uid concept resource ''video_resource'' s
      else if contains ''notes'' resource \<or> contains ''drive'' resource
        then link_concepts clk uid concept resource ''note_resource'' s
      else s)"

definition create_learning_path_graph ::
  "(nat \<Rightarrow> int) \<Rightarrow> int \<Rightarrow> int \<Rightarrow> string \<Rightarrow> string list \<Rightarrow> 'v world \<Rightarrow> 'v world" where
  "create_learning_path_graph clk uid day concept resources s =
     (let day_node = ''day_'' @ str_int day;
          s1 = link_concepts clk uid day_node concept ''teaches'' s
      in fold (link_resource clk uid concept) resources s1)"

subsection \<open>Retention\<close>

text \<open>
  \<open>datetime.now() - timedelta(days=days)\<close>: \<open>timedelta\<close> refuses more than 999999999 days
  either way, and the difference must lie between \<open>datetime.min\<close> and \<open>datetime.max\<close>
  (year 9999 ends 3652059 days after the start of year 1).
\<close>

definition max_datetime :: int where
  "max_datetime = 3652059 * 86400000000 - 1"

definition cutoff_date :: "int \<Rightarrow> int \<Rightarrow> error + int" where
  "cutoff_date now days =
     (if days < - 999999999 \<or> 999999999 < days then Inl OverflowError
      else let c = now - days * 86400000000
           in if c < 0 \<or> max_datetime < c then Inl OverflowError else Inr c)"

definition swept :: "int \<Rightarrow> int \<Rightarrow> 'v memory_row \<Rightarrow> bool" where
  "swept uid cutoff r =
     (row_user_id r = uid \<and> row_timestamp r < cutoff \<and> row_memory_type r = ''conversation'')"

definition cleanup_old_memories ::
  "(nat \<Rightarrow> int) \<Rightarrow> int \<Rightarrow> int \<Rightarrow> 'v world \<Rightarrow> (error + unit) \<times> 'v world" where
  "cleanup_old_memories clk uid days s =
     (let (now, s1) = datetime_now clk s
      in case cutoff_date now days of
           Inl e \<Rightarrow> (Inl e, s1)
         | Inr cutoff \<Rightarrow>
             (Inr (), s1\<lparr>memory_entries := filter (\<lambda>r. \<not> swept uid cutoff r) (memory_entries s1)\<rparr>))"

subsection \<open>Reads of the entry table\<close>

record recalled =
  rc_content :: string
  rc_metadata :: json
  rc_timestamp :: int

text \<open>SQLite's \<open>LIMIT n\<close>: a negative \<open>n\<close> means no limit.\<close>

definition sql_limit :: "int \<Rightarrow> 'a list \<Rightarrow> 'a list" where
  "sql_limit n xs = (if n < 0 then xs else take (nat n) xs)"

definition recall_conversation :: "'v world \<Rightarrow> int \<Rightarrow> int \<Rightarrow> recalled list" where
  "recall_conversation s uid limit =
     (let rows = sql_limit limit
            (sort_key (\<lambda>r. - row_timestamp r)
               (filter (\<lambda>r. row_user_id r = uid \<and> row_memory_type r = ''conversation'')
                  (memory_entries s)))
      in fold (\<lambda>row results. results @
                 [\<lparr>rc_content = row_content row, rc_metadata = row_metadata row,
                   rc_timestamp = row_timestamp row\<rparr>]) rows [])"

record found =
  f_content :: string
  f_metadata :: json
  f_timestamp :: int
  similarity :: rat

text \<open>Python's \<open>xs[:n]\<close>: a negative \<open>n\<close> counts from the end.\<close>

definition slice_to :: "int \<Rightarrow> 'a list \<Rightarrow> 'a list" where
  "slice_to n xs = (if n < 0 then take (length xs - nat (- n)) xs else take (nat n) xs)"

definition search_step :: "('v \<Rightarrow> 'v \<Rightarrow> rat option) \<Rightarrow> 'v \<Rightarrow> 'v memory_row \<Rightarrow> found list \<Rightarrow> found list" where
  "search_step cosine query_embedding row results =
     (case cosine query_embedding (row_embedding row) of
        None \<Rightarrow> results
      | Some sim \<Rightarrow>
          if sim > 1 / 2
          then results @ [\<lparr>f_content = row_content row, f_metadata = row_metadata row,
                           f_timestamp = row_timestamp row, similarity = sim\<rparr>]
          else results)"

definition semantic_search ::
  "(string \<Rightarrow> 'v option) \<Rightarrow> ('v \<Rightarrow> 'v \<Rightarrow> rat option) \<Rightarrow> 'v world \<Rightarrow> int \<Rightarrow> string \<Rightarrow> int
     \<Rightarrow> error + found list" where
  "semantic_search encode cosine s uid query limit =
     (case encode query of
        None \<Rightarrow> Inl EmbeddingUnavailable
      | Some query_embedding \<Rightarrow>
          (let rows = filter (\<lambda>r. row_user_id r = uid) (memory_entries s);
               results = fold (search_step cosine query_embedding) rows []
           in Inr (slice_to limit (sort_key (\<lambda>x. - similarity x) results))))"

subsection \<open>Reads of the graph\<close>

definition get_related_concepts :: "'v world \<Rightarrow> int \<Rightarrow> string \<Rightarrow> string list" where
  "get_related_concepts s uid concept =
     (let user_concept = user_node uid concept
      in if has_node (knowledge_graph s) user_concept
         then fold (\<lambda>neighbor related. related @ [clean_concept neighbor])
                (neighbors (knowledge_graph s) user_concept) []
         else [])"

definition programming_concepts :: "string list" where
  "programming_concepts =
     [''python'', ''javascript'', ''recursion'', ''loops'', ''functions'', ''variables'',
      ''classes'', ''objects'', ''arrays'', ''strings'', ''algorithms'', ''data structures'']"

text \<open>
  \<open>re.findall(r'day\s*(\d+)', text)\<close>: the matches from left to right without overlap,
  each given by its group of digits. White space and digits are disjoint, so the greedy
  \<open>\s*\<close> never has to give a character back.
\<close>

function day_matches :: "string \<Rightarrow> string list" where
  "day_matches [] = []"
| "day_matches (c # cs) =
     (if startswith ''day'' (c # cs)
      then let rest = dropWhile is_space (drop 3 (c # cs));
               digits = takeWhile is_digit rest
           in if digits \<noteq> [] then digits # day_matches (dropWhile is_digit rest)
              else day_matches cs
      else day_matches cs)"
  by pat_completeness auto
termination
proof (relation "measure length")
  show "wf (measure length)" by simp
next
  fix c :: char and cs rest digits :: string
  assume rest: "rest = dropWhile is_space (drop 3 (c # cs))"
  have "length (dropWhile is_digit rest) \<le> length rest"
    by (rule length_dropWhile_le)
  also have "\<dots> \<le> length (drop 3 (c # cs))"
    unfolding rest by (rule length_dropWhile_le)
  also have "\<dots> < length (c # cs)"
    by simp
  finally show "(dropWhile is_digit rest, c # cs) \<in> measure length"
    by simp
qed simp_all

definition extract_concepts :: "string \<Rightarrow> string list" where
  "extract_concepts text =
     (let text_lower = lower text;
          found_concepts =
            fold (\<lambda>concept acc. if contains concept text_lower then acc @ [concept] else acc)
              programming_concepts []
      in fold (\<lambda>day acc. acc @ [''day_'' @ day]) (day_matches text_lower) found_concepts)"

record graph_context =
  related_notes :: "string list"
  related_videos :: "string list"
  concept_dependencies :: "(string \<times> string list) list"
  learning_path :: "string list"

definition empty_context :: graph_context where
  "empty_context =
     \<lparr>related_notes = [], related_videos = [], concept_dependencies = [], learning_path = []\<rparr>"

text \<open>
  \<open>if concept not in d: d[concept] = []\<close> followed by \<open>d[concept].append(x)\<close>, on a
  dictionary kept in insertion order.
\<close>

definition add_dependency ::
  "string \<Rightarrow> string \<Rightarrow> (string \<times> string list) list \<Rightarrow> (string \<times> string list) list" where
  "add_dependency concept x deps =
     (if concept \<in> set (map fst deps)
      then map (\<lambda>(k, v). if k = concept then (k, v @ [x]) else (k, v)) deps
      else deps @ [(concept, [x])])"

text \<open>
  The body of the loop over the neighbours. The loop reads each neighbour's attributes
  with \<open>get_edge_data(user_concept, neighbor)\<close>, that is, the entry the iteration over
  the successor dictionary is at.
\<close>

definition classify_neighbor ::
  "string \<Rightarrow> string \<times> edge_data \<Rightarrow> graph_context \<Rightarrow> graph_context" where
  "classify_neighbor concept nb ctx =
     (let rel = edge_relationship (snd nb);
          clean_neighbor = clean_concept (fst nb)
      in if contains ''note'' rel \<or> contains ''day'' (lower clean_neighbor)
           then ctx\<lparr>related_notes := related_notes ctx @ [clean_neighbor]\<rparr>
         else if contains ''video'' rel \<or> contains ''youtube'' (lower clean_neighbor)
           then ctx\<lparr>related_videos := related_videos ctx @ [clean_neighbor]\<rparr>
         else if contains ''depends'' rel
           then ctx\<lparr>concept_dependencies :=
                      add_dependency concept clean_neighbor (concept_dependencies ctx)\<rparr>
         else ctx)"

definition context_of_concept ::
  "digraph \<Rightarrow> int \<Rightarrow> string \<Rightarrow> graph_context \<Rightarrow> graph_context" where
  "context_of_concept g uid concept ctx =
     (let user_concept = user_node uid concept
      in if has_node g user_concept
         then fold (classify_neighbor concept) (successors g user_concept) ctx
         else ctx)"

definition get_graph_context :: "'v world \<Rightarrow> int \<Rightarrow> string \<Rightarrow> graph_context" where
  "get_graph_context s uid query =
     fold (context_of_concept (knowledge_graph s) uid) (extract_concepts query) empty_context"

subsection \<open>What a call leaves in place\<close>

definition same_store :: "'v world \<Rightarrow> 'v world \<Rightarrow> bool" where
  "same_store s s' =
     (memory_entries s' = memory_entries s
      \<and> knowledge_graph_rows s' = knowledge_graph_rows s
      \<and> knowledge_graph s' = knowledge_graph s)"

subsection \<open>Projections and a clock for the examples\<close>

definition edge_of_row :: "graph_row \<Rightarrow> int \<times> string \<times> column \<times> string" where
  "edge_of_row r = (kg_user_id r, source_node r, target_node r, relationship r)"

definition tick_clock :: "nat \<Rightarrow> int" where
  "tick_clock n = int n"

text \<open>An embedding model that always answers, for the examples.\<close>

definition unit_encoder :: "string \<Rightarrow> unit option" where
  "unit_encoder t = Some ()"

subsection \<open>Resources of a learning day\<close>

text \<open>The two tests of the loop in \<open>create_learning_path_graph\<close>, joined.\<close>

definition linked_resource :: "string \<Rightarrow> bool" where
  "linked_resource resource =
     (contains ''youtube'' resource \<or> contains ''video'' resource
      \<or> contains ''notes'' resource \<or> contains ''drive'' resource)"

subsection \<open>Reading a graph context\<close>

text \<open>\<open>x in graph_context["concept_dependencies"][concept]\<close>, false when the key is absent.\<close>

definition in_dependencies :: "graph_context \<Rightarrow> string \<Rightarrow> string \<Rightarrow> bool" where
  "in_dependencies ctx concept x =
     (case map_of (concept_dependencies ctx) concept of None \<Rightarrow> False | Some ds \<Rightarrow> x \<in> set ds)"

text \<open>
  The three rules of the graph context resolver, each on its own: a note or day token in
  the relationship or the neighbour's label, a video or youtube token, a dependency token
  in the relationship.
\<close>

definition note_rule :: "string \<times> edge_data \<Rightarrow> bool" where
  "note_rule nb =
     (contains ''note'' (edge_relationship (snd nb))
      \<or> contains ''day'' (lower (clean_concept (fst nb))))"

definition video_rule :: "string \<times> edge_data \<Rightarrow> bool" where
  "video_rule nb =
     (contains ''video'' (edge_relationship (snd nb))
      \<or> contains ''youtube'' (lower (clean_concept (fst nb))))"

definition depends_rule :: "string \<times> edge_data \<Rightarrow> bool" where
  "depends_rule nb = contains ''depends'' (edge_relationship (snd nb))"

text \<open>
  The neighbours a query visits, each with the concept it is reached from: the concepts
  in the order they are extracted, the neighbours of each in the order of the graph.
\<close>

definition visited :: "digraph \<Rightarrow> int \<Rightarrow> string \<Rightarrow> (string \<times> string \<times> edge_data) list" where
  "visited g uid query =
     concat (map (\<lambda>concept. map (\<lambda>nb. (concept, nb)) (successors g (user_node uid concept)))
               (extract_concepts query))"

text \<open>The labels of the visited neighbours that a rule selects, in the order of the visits.\<close>

definition filed ::
  "(string \<times> edge_data \<Rightarrow> bool) \<Rightarrow> (string \<times> string \<times> edge_data) list \<Rightarrow> string list" where
  "filed rule visits =
     map (\<lambda>v. clean_concept (fst (snd v))) (filter (\<lambda>v. rule (snd v)) visits)"

subsection \<open>Example states\<close>

text \<open>
  A learning day with a notes file and a video, and a dependency of \<open>python\<close> on
  \<open>variables\<close>.
\<close>

definition classified_world :: "unit world" where
  "classified_world =
     add_to_graph tick_clock 1 ''python'' ''variables'' ''depends_on'' 1
       (create_learning_path_graph tick_clock 1 5 ''python''
          [''drive/notes.pdf'', ''intro_video''] init_world)"

text \<open>
  A video whose address contains \<open>day\<close>, and a dependency on a concept whose name
  contains \<open>youtube\<close>.
\<close>

definition misfiled_world :: "unit world" where
  "misfiled_world =
     add_to_graph tick_clock 1 ''python'' ''youtube_api'' ''depends_on'' 1
       (create_learning_path_graph tick_clock 1 1 ''python''
          [''youtube.com/monday_lecture''] init_world)"

subsection \<open>Calls of the manager\<close>

datatype call =
    StoreConversation int string string "string list option"
  | StoreEpisodic int string "(string \<times> json) list"
  | StoreSemantic int string "string list"
  | AddToGraph int string string string rat
  | LinkConcepts int string string string
  | CreateLearningPathGraph int int string "string list"
  | CleanupOldMemories int int

fun call_user :: "call \<Rightarrow> int" where
  "call_user (StoreConversation u m r t) = u"
| "call_user (StoreEpisodic u a res) = u"
| "call_user (StoreSemantic u c rel) = u"
| "call_user (AddToGraph u a b r w) = u"
| "call_user (LinkConcepts u a b r) = u"
| "call_user (CreateLearningPathGraph u d c rs) = u"
| "call_user (CleanupOldMemories u d) = u"

text \<open>The state a call leaves, whether it returns or raises.\<close>

fun perform :: "(string \<Rightarrow> 'v option) \<Rightarrow> (nat \<Rightarrow> int) \<Rightarrow> call \<Rightarrow> 'v world \<Rightarrow> 'v world" where
  "perform encode clk (StoreConversation u m r t) s = snd (store_conversation encode clk u m r t s)"
| "perform encode clk (StoreEpisodic u a res) s = snd (store_episodic encode clk u a res s)"
| "perform encode clk (StoreSemantic u c rel) s = snd (store_semantic encode clk u c rel s)"
| "perform encode clk (AddToGraph u a b r w) s = add_to_graph clk u a b r w s"
| "perform encode clk (LinkConcepts u a b r) s = link_concepts clk u a b r s"
| "perform encode clk (CreateLearningPathGraph u d c rs) s = create_learning_path_graph clk u d c rs s"
| "perform encode clk (CleanupOldMemories u d) s = snd (cleanup_old_memories clk u d s)"

definition run_calls :: "(string \<Rightarrow> 'v option) \<Rightarrow> (nat \<Rightarrow> int) \<Rightarrow> call list \<Rightarrow> 'v world \<Rightarrow> 'v world" where
  "run_calls encode clk calls s = fold (perform encode clk) calls s"

text \<open>The user a node key belongs to: the text before its first colon.\<close>

definition node_owner :: "string \<Rightarrow> string" where
  "node_owner k = takeWhile (\<lambda>c. c \<noteq> CHR '':'') k"

definition edges_within_user :: "digraph \<Rightarrow> bool" where
  "edges_within_user g = (\<forall>(n, adj) \<in> set g. \<forall>(m, d) \<in> set adj. node_owner m = node_owner n)"

text \<open>What the graph holds for one user: the successors of each of the user's nodes, and
  the user's rows of the table.\<close>

definition graph_view :: "'v world \<Rightarrow> int \<Rightarrow> (string \<Rightarrow> adjacency) \<times> graph_row list" where
  "graph_view s u =
     (\<lambda>x. successors (knowledge_graph s) (user_node u x),
      filter (\<lambda>r. kg_user_id r = u) (knowledge_graph_rows s))"

text \<open>
  User 1 has linked \<open>python\<close> with \<open>numpy\<close>; user 2 then writes about \<open>python\<close>, the last
  time with a number and \<open>None\<close> as the links of an action.
\<close>

definition user1_world :: "unit world" where
  "user1_world = link_concepts tick_clock 1 ''python'' ''numpy'' ''related_to'' init_world"

definition user2_calls :: "call list" where
  "user2_calls =
     [StoreSemantic 2 ''python'' [''django''],
      LinkConcepts 2 ''python'' ''flask'' ''related_to'',
      CreateLearningPathGraph 2 1 ''python'' [''youtube.com/intro''],
      StoreEpisodic 2 ''python'' [(''youtube_link'', JInt 5), (''playlist_name'', JNull)]]"

text \<open>
  Two entries of user 1 written on day 730000, a conversation and an action, and a clock
  that stands forty days later.
\<close>

definition retention_world :: "unit world" where
  "retention_world =
     \<lparr>memory_entries =
        [\<lparr>row_user_id = 1, row_content = ''User: hi'' @ [CHR 0x0A] @ ''AI: hello'',
          row_memory_type = ''conversation'', row_metadata = JObj [],
          row_timestamp = 730000 * 86400000000, row_embedding = ()\<rparr>,
         \<lparr>row_user_id = 1, row_content = ''Action: get_notes'',
          row_memory_type = ''episodic'', row_metadata = JObj [],
          row_timestamp = 730000 * 86400000000, row_embedding = ()\<rparr>],
      knowledge_graph_rows = knowledge_graph_rows user1_world,
      knowledge_graph = knowledge_graph user1_world,
      ticks = 0\<rparr>"

definition forty_days_later :: "nat \<Rightarrow> int" where
  "forty_days_later n = 730040 * 86400000000"

subsection \<open>What a query returns for a row\<close>

definition recalled_of :: "'v memory_row \<Rightarrow> recalled" where
  "recalled_of row =
     \<lparr>rc_content = row_content row, rc_metadata = row_metadata row,
      rc_timestamp = row_timestamp row\<rparr>"

subsection \<open>Similarity search, in the words of the specification\<close>

definition relevant :: "('v \<Rightarrow> 'v \<Rightarrow> rat option) \<Rightarrow> 'v \<Rightarrow> 'v memory_row \<Rightarrow> bool" where
  "relevant cosine query_embedding row =
     (case cosine query_embedding (row_embedding row) of
        None \<Rightarrow> False
      | Some sim \<Rightarrow> 1 / 2 < sim)"

definition found_of :: "('v \<Rightarrow> 'v \<Rightarrow> rat option) \<Rightarrow> 'v \<Rightarrow> 'v memory_row \<Rightarrow> found" where
  "found_of cosine query_embedding row =
     \<lparr>f_content = row_content row, f_metadata = row_metadata row,
      f_timestamp = row_timestamp row,
      similarity = (case cosine query_embedding (row_embedding row) of
                      None \<Rightarrow> 0 | Some sim \<Rightarrow> sim)\<rparr>"

text \<open>
  For every entry of the user compute the similarity, retain the entries with similarity
  strictly greater than 0.5, sort by similarity descending, truncate to the limit.
\<close>

definition search_spec ::
  "('v \<Rightarrow> 'v \<Rightarrow> rat option) \<Rightarrow> 'v \<Rightarrow> 'v world \<Rightarrow> int \<Rightarrow> nat \<Rightarrow> found list" where
  "search_spec cosine query_embedding s uid k =
     take k
       (sort_key (\<lambda>x. - similarity x)
          (map (found_of cosine query_embedding)
             (filter (\<lambda>r. row_user_id r = uid \<and> relevant cosine query_embedding r)
                (memory_entries s))))"

text \<open>
  For the examples: one-number embeddings, an embedding model that answers 1, and a
  stand-in for the cosine that reads the stored number as the score, zero as NaN.
\<close>

definition one_encoder :: "string \<Rightarrow> rat option" where
  "one_encoder t = Some 1"

definition stored_score :: "rat \<Rightarrow> rat \<Rightarrow> rat option" where
  "stored_score q e = (if e = 0 then None else Some (q * e))"

definition search_world :: "rat world" where
  "search_world =
     \<lparr>memory_entries =
        [\<lparr>row_user_id = 1, row_content = ''loops'', row_memory_type = ''semantic'',
          row_metadata = JObj [], row_timestamp = 1, row_embedding = 3 / 4\<rparr>,
         \<lparr>row_user_id = 1, row_content = ''arrays'', row_memory_type = ''semantic'',
          row_metadata = JObj [], row_timestamp = 2, row_embedding = 1 / 2\<rparr>,
         \<lparr>row_user_id = 2, row_content = ''recursion'', row_memory_type = ''semantic'',
          row_metadata = JObj [], row_timestamp = 3, row_embedding = 1\<rparr>,
         \<lparr>row_user_id = 1, row_content = ''recursion'', row_memory_type = ''semantic'',
          row_metadata = JObj [], row_timestamp = 4, row_embedding = 9 / 10\<rparr>,
         \<lparr>row_user_id = 1, row_content = '''', row_memory_type = ''semantic'',
          row_metadata = JObj [], row_timestamp = 5, row_embedding = 0\<rparr>],
      knowledge_graph_rows = [], knowledge_graph = [], ticks = 5\<rparr>"

section \<open>Properties\<close>

subsection \<open>Writes of entries\<close>

text \<open>
  C1. Each of \<open>store_conversation\<close>, \<open>store_episodic\<close> and \<open>store_semantic\<close> computes the
  embedding of the entry's content before anything is written: when the embedding model
  fails, the call ends with that failure and both tables and the graph are as they were;
  when it succeeds, the row appended by \<open>_store_entry\<close> carries the computed vector.
\<close>

theorem store_all_or_nothing:
  "(encode (''User: '' @ user_message @ [CHR 0x0A] @ ''AI: '' @ ai_response) = None \<longrightarrow>
      fst (store_conversation encode clk uid user_message ai_response tools_used s)
        = Inl EmbeddingUnavailable
      \<and> same_store s
          (snd (store_conversation encode clk uid user_message ai_response tools_used s)))
   \<and> (encode (''Action: '' @ action) = None \<longrightarrow>
      fst (store_episodic encode clk uid action result s) = Inl EmbeddingUnavailable
      \<and> same_store s (snd (store_episodic encode clk uid action result s)))
   \<and> (encode concept = None \<longrightarrow>
      fst (store_semantic encode clk uid concept related_concepts s) = Inl EmbeddingUnavailable
      \<and> same_store s (snd (store_semantic encode clk uid concept related_concepts s)))
   \<and> (\<forall>entry v. encode (content entry) = Some v \<longrightarrow>
        memory_entries (snd (store_entry encode entry s)) = memory_entries s @
          [\<lparr>row_user_id = user_id entry, row_content = content entry,
            row_memory_type = memory_type entry, row_metadata = metadata entry,
            row_timestamp = timestamp entry, row_embedding = v\<rparr>])"
  by (simp add: store_conversation_def store_episodic_def store_semantic_def store_entry_def
      same_store_def datetime_now_def Let_def)

theorem store_all_or_nothing_witness:
  "(let encode = (\<lambda>t. if t = ''loops'' then Some (1::nat) else None);
        clk = (\<lambda>n. 7);
        s = init_world
    in encode (''User: hi'' @ [CHR 0x0A] @ ''AI: ok'') = None
       \<and> fst (store_conversation encode clk 1 ''hi'' ''ok'' None s) = Inl EmbeddingUnavailable
       \<and> same_store s (snd (store_conversation encode clk 1 ''hi'' ''ok'' None s))
       \<and> encode ''Action: get_notes'' = None
       \<and> fst (store_episodic encode clk 1 ''get_notes'' [] s) = Inl EmbeddingUnavailable
       \<and> same_store s (snd (store_episodic encode clk 1 ''get_notes'' [] s))
       \<and> encode ''recursion'' = None
       \<and> fst (store_semantic encode clk 1 ''recursion'' [''loops''] s) = Inl EmbeddingUnavailable
       \<and> same_store s (snd (store_semantic encode clk 1 ''recursion'' [''loops''] s))
       \<and> encode ''loops'' = Some 1
       \<and> map row_embedding (memory_entries (snd (store_semantic encode clk 1 ''loops'' [] s)))
           = [1])"
  using store_all_or_nothing
    [of "\<lambda>t. if t = ''loops'' then Some (1::nat) else None" "''hi''" "''ok''" "\<lambda>n. 7" 1 None
        init_world "''get_notes''" "[]" "''recursion''" "[''loops'']"]
  by (simp add: store_semantic_def store_entry_def datetime_now_def init_world_def)

subsection \<open>The graph after an insertion\<close>

lemma map_of_map_keyed:
  "map_of (map (\<lambda>(n, a). if n = u then (n, f a) else (n, a)) g) n
     = (if n = u then map_option f (map_of g n) else map_of g n)"
  by (induction g) auto

lemma has_node_map_of: "has_node g n \<longleftrightarrow> map_of g n \<noteq> None"
  by (simp add: has_node_def map_of_eq_None_iff)

lemma map_of_add_node:
  "map_of (add_node g n) m = (if m = n \<and> map_of g n = None then Some [] else map_of g m)"
proof (cases "map_of g n")
  case None
  then have "\<not> has_node g n" by (simp add: has_node_map_of)
  then show ?thesis using None by (simp add: add_node_def map_add_def split: option.splits)
next
  case (Some a)
  then have "has_node g n" by (simp add: has_node_map_of)
  then show ?thesis using Some by (simp add: add_node_def)
qed

lemma successors_add_edge:
  "successors (add_edge g u v d) n
     = (if n = u then set_successor (successors g u) v d else successors g n)"
  by (auto simp: successors_def add_edge_def map_of_map_keyed map_of_add_node set_successor_def
      split: option.splits)

lemma has_node_add_edge:
  "has_node (add_edge g u v d) n \<longleftrightarrow> has_node g n \<or> n = u \<or> n = v"
  by (auto simp: has_node_map_of add_edge_def map_of_map_keyed map_of_add_node)

lemma keys_set_successor:
  "map fst (set_successor adj v d)
     = (if v \<in> set (map fst adj) then map fst adj else map fst adj @ [v])"
  by (auto simp: set_successor_def case_prod_beta cong: map_cong)

lemma map_of_set_successor:
  "map_of (set_successor adj v d) w = (if w = v then Some d else map_of adj w)"
proof (cases "map_of adj v")
  case None
  then have "v \<notin> set (map fst adj)" by (simp add: map_of_eq_None_iff)
  then show ?thesis using None by (simp add: set_successor_def map_add_def split: option.splits)
next
  case (Some a)
  then have "v \<in> set (map fst adj)" by (metis map_of_eq_None_iff option.distinct(1) set_map)
  then show ?thesis using Some by (simp add: set_successor_def map_of_map_keyed)
qed

subsection \<open>Node keys\<close>

lemma digit_char_inj: "a < 10 \<Longrightarrow> b < 10 \<Longrightarrow> digit_char a = digit_char b \<Longrightarrow> a = b"
proof -
  assume a: "a < 10" and b: "b < 10" and e: "digit_char a = digit_char b"
  have "(of_char (digit_char a) :: nat) = (48 + a) mod 256"
    unfolding digit_char_def by (rule of_char_of)
  moreover have "(of_char (digit_char b) :: nat) = (48 + b) mod 256"
    unfolding digit_char_def by (rule of_char_of)
  ultimately have "(48 + a) mod 256 = (48 + b) mod 256" using e by metis
  moreover have "(48 + a) mod 256 = 48 + a" using a by (intro mod_less) linarith
  moreover have "(48 + b) mod 256 = 48 + b" using b by (intro mod_less) linarith
  ultimately show "a = b" by linarith
qed

lemma digit_char_is_digit: "d < 10 \<Longrightarrow> is_digit (digit_char d)"
proof -
  assume d: "d < 10"
  have "(of_char (digit_char d) :: nat) = (48 + d) mod 256"
    unfolding digit_char_def by (rule of_char_of)
  moreover have "(48 + d) mod 256 = 48 + d" using d by (intro mod_less) linarith
  ultimately show ?thesis using d by (simp add: is_digit_def)
qed

lemma str_nat_digits: "\<forall>c \<in> set (str_nat n). is_digit c"
proof (induction n rule: str_nat.induct)
  case (1 n)
  show ?case
  proof (cases "n < 10")
    case True
    then show ?thesis by (subst str_nat.simps) (simp add: digit_char_is_digit)
  next
    case False
    then show ?thesis using 1 by (subst str_nat.simps) (auto simp: digit_char_is_digit)
  qed
qed

lemma str_nat_nonempty: "str_nat n \<noteq> []"
  by (subst str_nat.simps) simp

lemma str_nat_inj: "str_nat n = str_nat m \<Longrightarrow> n = m"
proof (induction n arbitrary: m rule: str_nat.induct)
  case (1 n)
  show ?case
  proof (cases "n < 10")
    case True
    then have n: "str_nat n = [digit_char n]" by (subst str_nat.simps) simp
    show ?thesis
    proof (cases "m < 10")
      case m: True
      then have "str_nat m = [digit_char m]" by (subst str_nat.simps) simp
      with n "1.prems" have "digit_char n = digit_char m" by simp
      then show ?thesis by (rule digit_char_inj [OF True m])
    next
      case m: False
      then have "str_nat m = str_nat (m div 10) @ [digit_char (m mod 10)]"
        by (subst str_nat.simps) simp
      with n "1.prems" show ?thesis using str_nat_nonempty [of "m div 10"] by simp
    qed
  next
    case False
    then have n: "str_nat n = str_nat (n div 10) @ [digit_char (n mod 10)]"
      by (subst str_nat.simps) simp
    show ?thesis
    proof (cases "m < 10")
      case m: True
      then have "str_nat m = [digit_char m]" by (subst str_nat.simps) simp
      with n "1.prems" show ?thesis using str_nat_nonempty [of "n div 10"] by simp
    next
      case m: False
      then have "str_nat m = str_nat (m div 10) @ [digit_char (m mod 10)]"
        by (subst str_nat.simps) simp
      with n "1.prems" have e: "str_nat (n div 10) = str_nat (m div 10)"
        and d: "digit_char (n mod 10) = digit_char (m mod 10)" by simp_all
      from e have "n div 10 = m div 10" using "1.IH" False by simp
      moreover have "n mod 10 = m mod 10" by (rule digit_char_inj [OF _ _ d]) simp_all
      ultimately show ?thesis by (metis div_mult_mod_eq)
    qed
  qed
qed

lemma is_digit_not_minus: "is_digit c \<Longrightarrow> c \<noteq> CHR ''-''"
  by (auto simp: is_digit_def)

lemma is_digit_not_colon: "is_digit c \<Longrightarrow> c \<noteq> CHR '':''"
  by (auto simp: is_digit_def)

lemma str_int_inj: "str_int i = str_int j \<Longrightarrow> i = j"
proof -
  assume e: "str_int i = str_int j"
  have hd_nat: "\<And>n. hd (str_nat n) \<noteq> CHR ''-''"
    using str_nat_digits str_nat_nonempty is_digit_not_minus by (metis hd_in_set)
  show "i = j"
  proof (cases "i < 0")
    case True
    show ?thesis
    proof (cases "j < 0")
      case j: True
      with True e have "str_nat (nat (- i)) = str_nat (nat (- j))" by (simp add: str_int_def)
      then have "nat (- i) = nat (- j)" by (rule str_nat_inj)
      with True j show ?thesis by simp
    next
      case j: False
      with True e have "CHR ''-'' # str_nat (nat (- i)) = str_nat (nat j)" by (simp add: str_int_def)
      then have "hd (str_nat (nat j)) = CHR ''-''" by (metis list.sel(1))
      with hd_nat show ?thesis by simp
    qed
  next
    case False
    show ?thesis
    proof (cases "j < 0")
      case j: True
      with False e have "str_nat (nat i) = CHR ''-'' # str_nat (nat (- j))" by (simp add: str_int_def)
      then have "hd (str_nat (nat i)) = CHR ''-''" by (metis list.sel(1))
      with hd_nat show ?thesis by simp
    next
      case j: False
      with False e have "str_nat (nat i) = str_nat (nat j)" by (simp add: str_int_def)
      then have "nat i = nat j" by (rule str_nat_inj)
      with False j show ?thesis by simp
    qed
  qed
qed

lemma colon_notin_str_int: "CHR '':'' \<notin> set (str_int i)"
  using str_nat_digits is_digit_not_colon by (auto simp: str_int_def)

lemma split_at_first:
  "x \<notin> set xs \<Longrightarrow> x \<notin> set xs' \<Longrightarrow> xs @ x # ys = xs' @ x # ys' \<Longrightarrow> xs = xs' \<and> ys = ys'"
proof (induction xs arbitrary: xs')
  case Nil
  then show ?case by (cases xs') auto
next
  case (Cons a xs)
  then show ?case by (cases xs') auto
qed

lemma user_node_inj: "user_node u a = user_node v b \<longleftrightarrow> u = v \<and> a = b"
proof
  assume "user_node u a = user_node v b"
  then have "str_int u @ CHR '':'' # a = str_int v @ CHR '':'' # b" by (simp add: user_node_def)
  then have "str_int u = str_int v \<and> a = b"
    by (rule split_at_first [OF colon_notin_str_int colon_notin_str_int])
  then show "u = v \<and> a = b" by (auto dest: str_int_inj)
qed simp

lemma clean_concept_user_node: "clean_concept (user_node u a) = a"
proof -
  have "dropWhile (\<lambda>c. c \<noteq> CHR '':'') (str_int u @ CHR '':'' # a) = CHR '':'' # a"
  proof -
    have "dropWhile (\<lambda>c. c \<noteq> CHR '':'') (str_int u) = []"
      using colon_notin_str_int [of u] by (auto simp: dropWhile_eq_Nil_conv)
    then show ?thesis by (simp add: dropWhile_append3)
  qed
  then show ?thesis by (simp add: clean_concept_def user_node_def)
qed

subsection \<open>Insertions into the graph\<close>

lemma add_to_graph_fields:
  "memory_entries (add_to_graph clk u a b r w s) = memory_entries s"
  "knowledge_graph_rows (add_to_graph clk u a b r w s) = knowledge_graph_rows s @
     [\<lparr>kg_user_id = u, source_node = a, target_node = Text b, relationship = r, weight = w,
       kg_timestamp = clk (ticks s)\<rparr>]"
  "knowledge_graph (add_to_graph clk u a b r w s)
     = add_edge (knowledge_graph s) (user_node u a) (user_node u b)
         \<lparr>edge_relationship = r, edge_weight = w\<rparr>"
  "ticks (add_to_graph clk u a b r w s) = Suc (ticks s)"
  by (simp_all add: add_to_graph_def datetime_now_def Let_def)

lemma add_to_graph_value_text:
  "add_to_graph_value clk u a (JStr b) r w s = (Inr (), add_to_graph clk u a b r w s)"
  by (simp add: add_to_graph_value_def add_to_graph_def target_forms_def datetime_now_def Let_def)

lemma add_to_graph_value_cases:
  "(\<exists>e. add_to_graph_value clk u a t r w s = (Inl e, s\<lparr>ticks := Suc (ticks s)\<rparr>))
   \<or> (\<exists>bound shown. add_to_graph_value clk u a t r w s
         = (Inr (),
            s\<lparr>ticks := Suc (ticks s),
              knowledge_graph_rows := knowledge_graph_rows s @
                [\<lparr>kg_user_id = u, source_node = a, target_node = bound, relationship = r,
                  weight = w, kg_timestamp = clk (ticks s)\<rparr>],
              knowledge_graph := add_edge (knowledge_graph s) (user_node u a) (user_node u shown)
                \<lparr>edge_relationship = r, edge_weight = w\<rparr>\<rparr>))"
  by (cases "target_forms t")
    (auto simp: add_to_graph_value_def datetime_now_def Let_def)

lemma fold_snoc_map: "fold (\<lambda>x acc. acc @ [f x]) xs acc = acc @ map f xs"
  by (induction xs arbitrary: acc) simp_all

lemma get_related_concepts_eq:
  "get_related_concepts s u c = map clean_concept (neighbors (knowledge_graph s) (user_node u c))"
  by (auto simp: get_related_concepts_def Let_def fold_snoc_map neighbors_def successors_def
      has_node_map_of)

lemma neighbors_add_edge:
  "neighbors (add_edge g u v d) n
     = (if n = u then (if v \<in> set (neighbors g u) then neighbors g u else neighbors g u @ [v])
        else neighbors g n)"
  by (simp add: neighbors_def successors_add_edge keys_set_successor)

lemma get_edge_data_add_edge:
  "get_edge_data (add_edge g u v d) n m
     = (if n = u \<and> m = v then Some d else get_edge_data g n m)"
  by (simp add: get_edge_data_def successors_add_edge map_of_set_successor)

text \<open>
  C4, as the code has it. Two insertions between the same ordered pair leave two rows in
  the table \<open>knowledge_graph\<close>, one per label. The in-memory graph is a \<open>DiGraph\<close>, which
  has one edge per ordered pair: the second insertion adds no successor and replaces the
  attributes of the edge, so the mirror shows the later label and weight only.
\<close>

theorem mirror_keeps_latest_label:
  "knowledge_graph_rows (add_to_graph clk u a b r2 w2 (add_to_graph clk u a b r1 w1 s))
     = knowledge_graph_rows s @
        [\<lparr>kg_user_id = u, source_node = a, target_node = Text b, relationship = r1, weight = w1,
          kg_timestamp = clk (ticks s)\<rparr>,
         \<lparr>kg_user_id = u, source_node = a, target_node = Text b, relationship = r2, weight = w2,
          kg_timestamp = clk (Suc (ticks s))\<rparr>]
   \<and> neighbors (knowledge_graph (add_to_graph clk u a b r2 w2 (add_to_graph clk u a b r1 w1 s)))
        (user_node u a)
      = neighbors (knowledge_graph (add_to_graph clk u a b r1 w1 s)) (user_node u a)
   \<and> get_edge_data
        (knowledge_graph (add_to_graph clk u a b r2 w2 (add_to_graph clk u a b r1 w1 s)))
        (user_node u a) (user_node u b)
      = Some \<lparr>edge_relationship = r2, edge_weight = w2\<rparr>"
  by (simp add: add_to_graph_fields neighbors_add_edge get_edge_data_add_edge)

text \<open>
  C4 as stated fails on the mirror: after \<open>python \<rightarrow> numpy\<close> is inserted as \<open>depends_on\<close> and
  then as \<open>related_to\<close>, the table has both labels, the mirror has the single edge labelled
  \<open>related_to\<close>, and the graph context of \<open>python\<close> reports no dependency.
\<close>

theorem multigraph_counterexample:
  "map relationship (knowledge_graph_rows
       (add_to_graph tick_clock 1 ''python'' ''numpy'' ''related_to'' 1
         (add_to_graph tick_clock 1 ''python'' ''numpy'' ''depends_on'' 1 (init_world :: unit world))))
     = [''depends_on'', ''related_to'']
   \<and> map (\<lambda>nb. (fst nb, edge_relationship (snd nb))) (successors (knowledge_graph
       (add_to_graph tick_clock 1 ''python'' ''numpy'' ''related_to'' 1
         (add_to_graph tick_clock 1 ''python'' ''numpy'' ''depends_on'' 1 (init_world :: unit world))))
       ''1:python'')
     = [(''1:numpy'', ''related_to'')]
   \<and> concept_dependencies (get_graph_context
       (add_to_graph tick_clock 1 ''python'' ''numpy'' ''related_to'' 1
         (add_to_graph tick_clock 1 ''python'' ''numpy'' ''depends_on'' 1 (init_world :: unit world)))
       1 ''python'') = []"
  by code_simp

subsection \<open>Links\<close>

lemma edges_add_to_graph:
  "map edge_of_row (knowledge_graph_rows (add_to_graph clk u a b r w s))
     = map edge_of_row (knowledge_graph_rows s) @ [(u, a, Text b, r)]"
  by (simp add: add_to_graph_fields edge_of_row_def)

lemma edges_link_concepts:
  "map edge_of_row (knowledge_graph_rows (link_concepts clk u a b r s))
     = map edge_of_row (knowledge_graph_rows s) @ [(u, a, Text b, r), (u, b, Text a, ''reverse_'' @ r)]"
  by (simp add: link_concepts_def Let_def edges_add_to_graph)

lemma related_add_to_graph:
  "get_related_concepts (add_to_graph clk u a b r w s) u' x
     = (if u' = u \<and> x = a \<and> user_node u b \<notin> set (neighbors (knowledge_graph s) (user_node u a))
        then get_related_concepts s u x @ [b]
        else get_related_concepts s u' x)"
  by (auto simp: get_related_concepts_eq add_to_graph_fields neighbors_add_edge user_node_inj
      clean_concept_user_node)

lemma related_after_add:
  "b \<in> set (get_related_concepts (add_to_graph clk u a b r w s) u a)"
proof (cases "user_node u b \<in> set (neighbors (knowledge_graph s) (user_node u a))")
  case True
  then have "clean_concept (user_node u b) \<in> set (get_related_concepts s u a)"
    unfolding get_related_concepts_eq by (simp del: clean_concept_user_node)
  then show ?thesis using True by (simp add: related_add_to_graph clean_concept_user_node)
next
  case False
  then show ?thesis by (simp add: related_add_to_graph)
qed

lemma related_mono:
  "y \<in> set (get_related_concepts s u' x)
     \<Longrightarrow> y \<in> set (get_related_concepts (add_to_graph clk u a b r w s) u' x)"
  by (auto simp: related_add_to_graph)

text \<open>
  C5. \<open>link_concepts(u, A, B, r)\<close> appends exactly two rows to the table, \<open>A \<rightarrow> B\<close> labelled
  \<open>r\<close> and \<open>B \<rightarrow> A\<close> labelled \<open>reverse_\<close> followed by \<open>r\<close>; afterwards
  \<open>get_related_concepts(u, A)\<close> includes \<open>B\<close> and \<open>get_related_concepts(u, B)\<close> includes
  \<open>A\<close>, and the mirror holds both edges with these labels.
\<close>

theorem link_concepts_both_directions:
  "map edge_of_row (knowledge_graph_rows (link_concepts clk u a b r s))
     = map edge_of_row (knowledge_graph_rows s) @ [(u, a, Text b, r), (u, b, Text a, ''reverse_'' @ r)]
   \<and> b \<in> set (get_related_concepts (link_concepts clk u a b r s) u a)
   \<and> a \<in> set (get_related_concepts (link_concepts clk u a b r s) u b)
   \<and> get_edge_data (knowledge_graph (link_concepts clk u a b r s)) (user_node u b) (user_node u a)
       = Some \<lparr>edge_relationship = ''reverse_'' @ r, edge_weight = 1\<rparr>
   \<and> (a \<noteq> b \<longrightarrow>
        get_edge_data (knowledge_graph (link_concepts clk u a b r s)) (user_node u a) (user_node u b)
          = Some \<lparr>edge_relationship = r, edge_weight = 1\<rparr>)"
proof -
  have "b \<in> set (get_related_concepts (link_concepts clk u a b r s) u a)"
    unfolding link_concepts_def Let_def by (intro related_mono related_after_add)
  moreover have "a \<in> set (get_related_concepts (link_concepts clk u a b r s) u b)"
    unfolding link_concepts_def Let_def by (rule related_after_add)
  ultimately show ?thesis
    by (simp add: edges_link_concepts)
      (simp add: link_concepts_def Let_def add_to_graph_fields get_edge_data_add_edge user_node_inj)
qed

theorem link_concepts_both_directions_witness:
  "''A'' \<noteq> ''B''
   \<and> map edge_of_row
        (knowledge_graph_rows
           (link_concepts tick_clock 1 ''A'' ''B'' ''related_to'' (init_world :: unit world)))
       = [(1, ''A'', Text ''B'', ''related_to''), (1, ''B'', Text ''A'', ''reverse_related_to'')]
   \<and> ''B'' \<in> set (get_related_concepts
        (link_concepts tick_clock 1 ''A'' ''B'' ''related_to'' (init_world :: unit world)) 1 ''A'')
   \<and> ''A'' \<in> set (get_related_concepts
        (link_concepts tick_clock 1 ''A'' ''B'' ''related_to'' (init_world :: unit world)) 1 ''B'')
   \<and> get_edge_data
        (knowledge_graph
           (link_concepts tick_clock 1 ''A'' ''B'' ''related_to'' (init_world :: unit world)))
        (user_node 1 ''A'') (user_node 1 ''B'')
       = Some \<lparr>edge_relationship = ''related_to'', edge_weight = 1\<rparr>"
  using link_concepts_both_directions
    [of tick_clock 1 "''A''" "''B''" "''related_to''" "init_world :: unit world"]
  by (simp add: init_world_def)

subsection \<open>Semantic entries\<close>

lemma edges_fold_add_to_graph:
  "map edge_of_row (knowledge_graph_rows (fold (\<lambda>x. add_to_graph clk u c x r w) xs s))
     = map edge_of_row (knowledge_graph_rows s) @ map (\<lambda>x. (u, c, Text x, r)) xs"
  by (induction xs arbitrary: s) (simp_all add: edges_add_to_graph)

lemma related_fold_add_to_graph:
  "(u', x) \<noteq> (u, c) \<Longrightarrow>
   get_related_concepts (fold (\<lambda>y. add_to_graph clk u c y r w) ys s) u' x
     = get_related_concepts s u' x"
  by (induction ys arbitrary: s) (auto simp: related_add_to_graph)

lemma related_store_entry:
  "get_related_concepts (snd (store_entry encode entry s)) u x = get_related_concepts s u x"
  by (simp add: store_entry_def get_related_concepts_eq split: option.splits)

lemma store_semantic_success:
  "encode concept = Some v \<Longrightarrow>
   store_semantic encode clk u concept related s
     = (Inr (),
        fold (\<lambda>y. add_to_graph clk u concept y ''related_to'' 1) related
          (s\<lparr>ticks := Suc (ticks s),
             memory_entries := memory_entries s @
               [\<lparr>row_user_id = u, row_content = concept, row_memory_type = ''semantic'',
                 row_metadata = JObj [(''related_concepts'', JList (map JStr related))],
                 row_timestamp = clk (ticks s), row_embedding = v\<rparr>]\<rparr>))"
  by (simp add: store_semantic_def store_entry_def datetime_now_def Let_def)

text \<open>
  C6, as the code has it. When the embedding succeeds, \<open>store_semantic(u, c, L)\<close> appends
  exactly the forward rows \<open>c \<rightarrow> x\<close> labelled \<open>related_to\<close>, one per element of \<open>L\<close> in
  order, and for every label \<open>x\<close> other than \<open>c\<close> the result of
  \<open>get_related_concepts(u, x)\<close> is the same before and after the call: it includes \<open>c\<close>
  afterwards only if it did before.
\<close>

theorem store_semantic_forward_only:
  assumes "encode concept = Some v"
  shows "fst (store_semantic encode clk u concept related s) = Inr ()
    \<and> map edge_of_row (knowledge_graph_rows (snd (store_semantic encode clk u concept related s)))
        = map edge_of_row (knowledge_graph_rows s) @ map (\<lambda>x. (u, concept, Text x, ''related_to'')) related
    \<and> (\<forall>x. x \<noteq> concept \<longrightarrow>
          get_related_concepts (snd (store_semantic encode clk u concept related s)) u x
            = get_related_concepts s u x)"
proof -
  let ?s1 = "s\<lparr>ticks := Suc (ticks s),
             memory_entries := memory_entries s @
               [\<lparr>row_user_id = u, row_content = concept, row_memory_type = ''semantic'',
                 row_metadata = JObj [(''related_concepts'', JList (map JStr related))],
                 row_timestamp = clk (ticks s), row_embedding = v\<rparr>]\<rparr>"
  have same: "get_related_concepts ?s1 u x = get_related_concepts s u x" for x
    by (simp add: get_related_concepts_eq)
  have "get_related_concepts (snd (store_semantic encode clk u concept related s)) u x
          = get_related_concepts s u x" if "x \<noteq> concept" for x
    using that assms by (simp add: store_semantic_success related_fold_add_to_graph same)
  then show ?thesis
    using assms by (simp add: store_semantic_success edges_fold_add_to_graph)
qed

theorem store_semantic_forward_only_witness:
  "unit_encoder ''recursion'' = Some () \<and> ''loops'' \<noteq> ''recursion''
   \<and> fst (store_semantic unit_encoder tick_clock 1 ''recursion'' [''loops'', ''functions'']
          init_world) = Inr ()
   \<and> map edge_of_row (knowledge_graph_rows
        (snd (store_semantic unit_encoder tick_clock 1 ''recursion'' [''loops'', ''functions'']
               init_world)))
      = [(1, ''recursion'', Text ''loops'', ''related_to''),
         (1, ''recursion'', Text ''functions'', ''related_to'')]
   \<and> get_related_concepts
        (snd (store_semantic unit_encoder tick_clock 1 ''recursion'' [''loops'', ''functions'']
               init_world)) 1 ''loops'' = []"
proof -
  have n: "''loops'' \<noteq> ''recursion''" by simp
  have r0: "get_related_concepts (init_world :: unit world) 1 ''loops'' = []"
    by (simp add: get_related_concepts_def init_world_def has_node_def)
  show ?thesis
    using store_semantic_forward_only
      [where encode = unit_encoder and concept = "''recursion''" and v = "()"
         and clk = tick_clock and u = 1 and related = "[''loops'', ''functions'']"
         and s = init_world] n r0
    by (simp add: init_world_def unit_encoder_def)
qed

text \<open>
  C6 as stated fails when the concept is among its own related concepts: the forward edge
  \<open>recursion \<rightarrow> recursion\<close> makes \<open>get_related_concepts(1, "recursion")\<close> include
  \<open>recursion\<close>, with no call of \<open>link_concepts\<close>.
\<close>

theorem store_semantic_reverse_counterexample:
  "''recursion'' \<in> set [''recursion'']
   \<and> fst (store_semantic unit_encoder tick_clock 1 ''recursion'' [''recursion''] init_world) = Inr ()
   \<and> ''recursion'' \<in> set (get_related_concepts
        (snd (store_semantic unit_encoder tick_clock 1 ''recursion'' [''recursion''] init_world))
        1 ''recursion'')"
  by code_simp

subsection \<open>Learning days\<close>

lemma link_resource_unlinked: "\<not> linked_resource r \<Longrightarrow> link_resource clk u c r s = s"
  by (simp add: link_resource_def linked_resource_def)

lemma fold_link_resource_filter:
  "fold (link_resource clk u c) rs s = fold (link_resource clk u c) (filter linked_resource rs) s"
  by (induction rs arbitrary: s) (simp_all add: link_resource_unlinked)

text \<open>
  C10. A resource that contains none of \<open>youtube\<close>, \<open>video\<close>, \<open>notes\<close> and \<open>drive\<close> is
  dropped by \<open>create_learning_path_graph\<close>: the call leaves the state it would leave with
  that resource removed from the list, and when no resource contains any of the four
  words the call does nothing but link the day with the concept (\<open>teaches\<close> and its
  reverse).
\<close>

theorem unlinked_resources_dropped:
  "create_learning_path_graph clk u day c resources s
     = create_learning_path_graph clk u day c (filter linked_resource resources) s
   \<and> ((\<forall>r \<in> set resources. \<not> linked_resource r) \<longrightarrow>
        create_learning_path_graph clk u day c resources s
          = link_concepts clk u (''day_'' @ str_int day) c ''teaches'' s
        \<and> map edge_of_row (knowledge_graph_rows (create_learning_path_graph clk u day c resources s))
          = map edge_of_row (knowledge_graph_rows s) @
              [(u, ''day_'' @ str_int day, Text c, ''teaches''),
               (u, c, Text (''day_'' @ str_int day), ''reverse_teaches'')])"
proof -
  have 1: "create_learning_path_graph clk u day c resources s
     = create_learning_path_graph clk u day c (filter linked_resource resources) s"
    unfolding create_learning_path_graph_def Let_def by (rule fold_link_resource_filter)
  have 2: "create_learning_path_graph clk u day c resources s
          = link_concepts clk u (''day_'' @ str_int day) c ''teaches'' s"
    if "\<forall>r \<in> set resources. \<not> linked_resource r"
  proof -
    from that have "filter linked_resource resources = []" by (simp add: filter_empty_conv)
    then show ?thesis by (subst 1) (simp add: create_learning_path_graph_def)
  qed
  show ?thesis using 1 2 by (auto simp: edges_link_concepts)
qed

theorem unlinked_resources_dropped_witness:
  "filter linked_resource [''https://example.org/slides.pdf'', ''textbook''] = []
   \<and> map edge_of_row (knowledge_graph_rows
        (create_learning_path_graph tick_clock 1 5 ''python''
           [''https://example.org/slides.pdf'', ''textbook''] (init_world :: unit world)))
      = [(1, ''day_5'', Text ''python'', ''teaches''),
         (1, ''python'', Text ''day_5'', ''reverse_teaches'')]"
proof -
  have h: "\<forall>r \<in> set [''https://example.org/slides.pdf'', ''textbook'']. \<not> linked_resource r"
    by code_simp
  have d: "str_int 5 = ''5''" by code_simp
  from h unlinked_resources_dropped
      [of tick_clock 1 5 "''python''" "[''https://example.org/slides.pdf'', ''textbook'']"
          "init_world :: unit world"]
  have "map edge_of_row (knowledge_graph_rows
        (create_learning_path_graph tick_clock 1 5 ''python''
           [''https://example.org/slides.pdf'', ''textbook''] (init_world :: unit world)))
      = map edge_of_row (knowledge_graph_rows (init_world :: unit world)) @
          [(1, ''day_'' @ str_int 5, Text ''python'', ''teaches''),
           (1, ''python'', Text (''day_'' @ str_int 5), ''reverse_teaches'')]"
    by blast
  moreover have "filter linked_resource [''https://example.org/slides.pdf'', ''textbook''] = []"
    by code_simp
  ultimately show ?thesis by (simp add: init_world_def d)
qed

subsection \<open>Graph context\<close>

lemma fold_keeps: "(\<And>x s. B s \<Longrightarrow> B (f x s)) \<Longrightarrow> B s \<Longrightarrow> B (fold f xs s)"
  by (induction xs arbitrary: s) simp_all

lemma fold_reaches:
  "a \<in> set xs \<Longrightarrow> (\<And>s. B (f a s)) \<Longrightarrow> (\<And>x s. B s \<Longrightarrow> B (f x s)) \<Longrightarrow> B (fold f xs s)"
proof (induction xs arbitrary: s)
  case Nil
  then show ?case by simp
next
  case (Cons x xs)
  show ?case
  proof (cases "a = x")
    case True
    have "B (f x s)" using Cons.prems(2) True by simp
    then have "B (fold f xs (f x s))" using Cons.prems(3) by (rule fold_keeps [rotated])
    then show ?thesis by simp
  next
    case False
    with Cons.prems(1) have "a \<in> set xs" by simp
    then have "B (fold f xs (f x s))" using Cons.prems(2,3) by (rule Cons.IH)
    then show ?thesis by simp
  qed
qed

lemma context_of_concept_eq:
  "context_of_concept g u c ctx = fold (classify_neighbor c) (successors g (user_node u c)) ctx"
  by (auto simp: context_of_concept_def Let_def successors_def has_node_map_of)

lemma map_of_add_dependency:
  "map_of (add_dependency c x deps) k
     = (if k = c then Some ((case map_of deps c of None \<Rightarrow> [] | Some ds \<Rightarrow> ds) @ [x])
        else map_of deps k)"
proof (cases "map_of deps c")
  case None
  then have "c \<notin> set (map fst deps)" by (simp add: map_of_eq_None_iff)
  then show ?thesis using None by (simp add: add_dependency_def map_add_def split: option.splits)
next
  case (Some ds)
  then have "c \<in> set (map fst deps)" by (metis map_of_eq_None_iff option.distinct(1) set_map)
  then show ?thesis using Some by (simp add: add_dependency_def map_of_map_keyed)
qed

lemma notes_kept:
  "x \<in> set (related_notes ctx) \<Longrightarrow> x \<in> set (related_notes (classify_neighbor c nb ctx))"
  by (simp add: classify_neighbor_def Let_def)

lemma videos_kept:
  "x \<in> set (related_videos ctx) \<Longrightarrow> x \<in> set (related_videos (classify_neighbor c nb ctx))"
  by (simp add: classify_neighbor_def Let_def)

lemma dependencies_kept:
  "in_dependencies ctx k x \<Longrightarrow> in_dependencies (classify_neighbor c nb ctx) k x"
  by (auto simp: classify_neighbor_def Let_def in_dependencies_def map_of_add_dependency
      split: option.splits)

lemma notes_kept_concept:
  "x \<in> set (related_notes ctx) \<Longrightarrow> x \<in> set (related_notes (context_of_concept g u c ctx))"
  unfolding context_of_concept_eq
  by (rule fold_keeps [where B = "\<lambda>s. x \<in> set (related_notes s)" and f = "classify_neighbor c"])
    (rule notes_kept)

lemma videos_kept_concept:
  "x \<in> set (related_videos ctx) \<Longrightarrow> x \<in> set (related_videos (context_of_concept g u c ctx))"
  unfolding context_of_concept_eq
  by (rule fold_keeps [where B = "\<lambda>s. x \<in> set (related_videos s)" and f = "classify_neighbor c"])
    (rule videos_kept)

lemma dependencies_kept_concept:
  "in_dependencies ctx k x \<Longrightarrow> in_dependencies (context_of_concept g u c ctx) k x"
  unfolding context_of_concept_eq
  by (rule fold_keeps [where B = "\<lambda>s. in_dependencies s k x" and f = "classify_neighbor c"])
    (rule dependencies_kept)

lemma reaches_context:
  assumes c: "concept \<in> set (extract_concepts query)"
    and nb: "nb \<in> set (successors (knowledge_graph s) (user_node uid concept))"
    and est: "\<And>ctx. B (classify_neighbor concept nb ctx)"
    and keep: "\<And>c nb ctx. B ctx \<Longrightarrow> B (classify_neighbor c nb ctx)"
  shows "B (get_graph_context s uid query)"
  unfolding get_graph_context_def
proof (rule fold_reaches
    [where B = B and f = "context_of_concept (knowledge_graph s) uid" and a = concept, OF c])
  fix ctx
  show "B (context_of_concept (knowledge_graph s) uid concept ctx)"
    unfolding context_of_concept_eq
    by (rule fold_reaches [where B = B and f = "classify_neighbor concept" and a = nb, OF nb est keep])
next
  fix c ctx
  assume b: "B ctx"
  have "B (fold (classify_neighbor c) nbs ctx)" for nbs
    using b by (induction nbs arbitrary: ctx) (simp_all add: keep)
  then show "B (context_of_concept (knowledge_graph s) uid c ctx)"
    unfolding context_of_concept_eq .
qed

lemma neighbor_memberships:
  assumes c: "concept \<in> set (extract_concepts query)"
    and nb: "nb \<in> set (successors (knowledge_graph s) (user_node uid concept))"
  shows "(edge_relationship (snd nb) = ''note_resource'' \<longrightarrow>
            clean_concept (fst nb) \<in> set (related_notes (get_graph_context s uid query)))
    \<and> (contains ''day'' (lower (clean_concept (fst nb))) \<longrightarrow>
            clean_concept (fst nb) \<in> set (related_notes (get_graph_context s uid query)))
    \<and> (edge_relationship (snd nb) = ''video_resource''
         \<and> \<not> contains ''day'' (lower (clean_concept (fst nb))) \<longrightarrow>
            clean_concept (fst nb) \<in> set (related_videos (get_graph_context s uid query)))
    \<and> (contains ''depends'' (edge_relationship (snd nb))
         \<and> \<not> contains ''note'' (edge_relationship (snd nb))
         \<and> \<not> contains ''video'' (edge_relationship (snd nb))
         \<and> \<not> contains ''day'' (lower (clean_concept (fst nb)))
         \<and> \<not> contains ''youtube'' (lower (clean_concept (fst nb))) \<longrightarrow>
            in_dependencies (get_graph_context s uid query) concept (clean_concept (fst nb)))
    \<and> (\<forall>c ctx. \<not> has_node (knowledge_graph s) (user_node uid c) \<longrightarrow>
           context_of_concept (knowledge_graph s) uid c ctx = ctx)"
proof (intro conjI impI allI)
  assume "edge_relationship (snd nb) = ''note_resource''"
  then have n: "contains ''note'' (edge_relationship (snd nb))" by simp
  show "clean_concept (fst nb) \<in> set (related_notes (get_graph_context s uid query))"
    by (rule reaches_context [OF c nb, where B = "\<lambda>ctx. clean_concept (fst nb) \<in> set (related_notes ctx)"])
      (simp_all add: notes_kept, simp add: classify_neighbor_def Let_def n)
next
  assume d: "contains ''day'' (lower (clean_concept (fst nb)))"
  show "clean_concept (fst nb) \<in> set (related_notes (get_graph_context s uid query))"
    by (rule reaches_context [OF c nb, where B = "\<lambda>ctx. clean_concept (fst nb) \<in> set (related_notes ctx)"])
      (simp_all add: notes_kept, simp add: classify_neighbor_def Let_def d)
next
  assume "edge_relationship (snd nb) = ''video_resource''
         \<and> \<not> contains ''day'' (lower (clean_concept (fst nb)))"
  then have v: "edge_relationship (snd nb) = ''video_resource''"
    and d: "\<not> contains ''day'' (lower (clean_concept (fst nb)))" by simp_all
  have n: "\<not> contains ''note'' ''video_resource''" by code_simp
  have vv: "contains ''video'' ''video_resource''" by code_simp
  show "clean_concept (fst nb) \<in> set (related_videos (get_graph_context s uid query))"
    by (rule reaches_context [OF c nb, where B = "\<lambda>ctx. clean_concept (fst nb) \<in> set (related_videos ctx)"])
      (simp_all add: videos_kept, simp add: classify_neighbor_def Let_def v d n vv)
next
  assume "contains ''depends'' (edge_relationship (snd nb))
         \<and> \<not> contains ''note'' (edge_relationship (snd nb))
         \<and> \<not> contains ''video'' (edge_relationship (snd nb))
         \<and> \<not> contains ''day'' (lower (clean_concept (fst nb)))
         \<and> \<not> contains ''youtube'' (lower (clean_concept (fst nb)))"
  then have h: "contains ''depends'' (edge_relationship (snd nb))"
    "\<not> contains ''note'' (edge_relationship (snd nb))"
    "\<not> contains ''video'' (edge_relationship (snd nb))"
    "\<not> contains ''day'' (lower (clean_concept (fst nb)))"
    "\<not> contains ''youtube'' (lower (clean_concept (fst nb)))" by simp_all
  show "in_dependencies (get_graph_context s uid query) concept (clean_concept (fst nb))"
    by (rule reaches_context [OF c nb, where B = "\<lambda>ctx. in_dependencies ctx concept (clean_concept (fst nb))"])
      (simp_all add: dependencies_kept,
       simp add: classify_neighbor_def Let_def h in_dependencies_def map_of_add_dependency)
next
  fix c ctx
  assume "\<not> has_node (knowledge_graph s) (user_node uid c)"
  then show "context_of_concept (knowledge_graph s) uid c ctx = ctx"
    by (simp add: context_of_concept_def)
qed

lemma fold_pairs:
  "fold (\<lambda>c. fold (f c) (g c)) cs ctx
     = fold (\<lambda>v. f (fst v) (snd v)) (concat (map (\<lambda>c. map (\<lambda>x. (c, x)) (g c)) cs)) ctx"
  by (induction cs arbitrary: ctx) (simp_all add: fold_map comp_def)

lemma get_graph_context_visited:
  "get_graph_context s uid query
     = fold (\<lambda>v. classify_neighbor (fst v) (snd v)) (visited (knowledge_graph s) uid query)
         empty_context"
proof -
  have "context_of_concept (knowledge_graph s) uid
          = (\<lambda>c. fold (classify_neighbor c) (successors (knowledge_graph s) (user_node uid c)))"
    by (intro ext) (simp add: context_of_concept_eq)
  then show ?thesis
    by (simp add: get_graph_context_def visited_def fold_pairs)
qed

lemma notes_of_visits:
  "related_notes (fold (\<lambda>v. classify_neighbor (fst v) (snd v)) vs ctx)
     = related_notes ctx @ filed note_rule vs"
  by (induction vs arbitrary: ctx)
    (simp_all add: filed_def classify_neighbor_def note_rule_def Let_def)

lemma videos_of_visits:
  "related_videos (fold (\<lambda>v. classify_neighbor (fst v) (snd v)) vs ctx)
     = related_videos ctx @ filed (\<lambda>nb. \<not> note_rule nb \<and> video_rule nb) vs"
  by (induction vs arbitrary: ctx)
    (simp_all add: filed_def classify_neighbor_def note_rule_def video_rule_def Let_def)

lemma learning_path_of_visits:
  "learning_path (fold (\<lambda>v. classify_neighbor (fst v) (snd v)) vs ctx) = learning_path ctx"
  by (induction vs arbitrary: ctx) (simp_all add: classify_neighbor_def Let_def)

lemma dependencies_of_visits:
  "map_of (concept_dependencies (fold (\<lambda>v. classify_neighbor (fst v) (snd v)) vs ctx)) concept
     = (let ds = filed (\<lambda>nb. \<not> note_rule nb \<and> \<not> video_rule nb \<and> depends_rule nb)
                   (filter (\<lambda>v. fst v = concept) vs)
        in if ds = [] then map_of (concept_dependencies ctx) concept
           else Some ((case map_of (concept_dependencies ctx) concept of
                         None \<Rightarrow> [] | Some old \<Rightarrow> old) @ ds))"
proof (induction vs arbitrary: ctx)
  case Nil
  then show ?case by (simp add: filed_def)
next
  case (Cons v vs)
  show ?case
    by (simp add: Cons.IH)
      (auto simp: filed_def classify_neighbor_def note_rule_def video_rule_def depends_rule_def
         Let_def map_of_add_dependency split: option.splits)
qed

text \<open>
  C7, as the code has it. The three tests of \<open>get_graph_context\<close> are tried in order and
  the first that holds decides, for each neighbour of each extracted concept in turn:
  \<open>related_notes\<close> holds exactly the visited neighbours whose relationship contains
  \<open>note\<close> or whose lower-cased label contains \<open>day\<close>; \<open>related_videos\<close> exactly those
  that fail this test and whose relationship contains \<open>video\<close> or whose lower-cased label
  contains \<open>youtube\<close>; \<open>concept_dependencies[concept]\<close> exactly those reached from the
  concept that fail both tests and whose relationship contains \<open>depends\<close> (the key is
  absent when there are none); \<open>learning_path\<close> stays empty. Hence the relationship
  \<open>note_resource\<close> puts a neighbour in \<open>related_notes\<close>, \<open>video_resource\<close> puts it in
  \<open>related_videos\<close> when its lower-cased label does not contain \<open>day\<close>, and a
  relationship containing \<open>depends\<close> puts it under the concept when neither earlier
  test holds. A concept with no node leaves the context as it is.
\<close>

theorem neighbor_classification:
  "related_notes (get_graph_context s uid query)
     = filed note_rule (visited (knowledge_graph s) uid query)
   \<and> related_videos (get_graph_context s uid query)
     = filed (\<lambda>nb. \<not> note_rule nb \<and> video_rule nb) (visited (knowledge_graph s) uid query)
   \<and> map_of (concept_dependencies (get_graph_context s uid query)) concept
     = (let ds = filed (\<lambda>nb. \<not> note_rule nb \<and> \<not> video_rule nb \<and> depends_rule nb)
                   (filter (\<lambda>v. fst v = concept) (visited (knowledge_graph s) uid query))
        in if ds = [] then None else Some ds)
   \<and> learning_path (get_graph_context s uid query) = []
   \<and> (concept \<in> set (extract_concepts query)
        \<and> nb \<in> set (successors (knowledge_graph s) (user_node uid concept)) \<longrightarrow>
        (edge_relationship (snd nb) = ''note_resource'' \<longrightarrow>
            clean_concept (fst nb) \<in> set (related_notes (get_graph_context s uid query)))
        \<and> (contains ''day'' (lower (clean_concept (fst nb))) \<longrightarrow>
            clean_concept (fst nb) \<in> set (related_notes (get_graph_context s uid query)))
        \<and> (edge_relationship (snd nb) = ''video_resource''
             \<and> \<not> contains ''day'' (lower (clean_concept (fst nb))) \<longrightarrow>
            clean_concept (fst nb) \<in> set (related_videos (get_graph_context s uid query)))
        \<and> (contains ''depends'' (edge_relationship (snd nb))
             \<and> \<not> contains ''note'' (edge_relationship (snd nb))
             \<and> \<not> contains ''video'' (edge_relationship (snd nb))
             \<and> \<not> contains ''day'' (lower (clean_concept (fst nb)))
             \<and> \<not> contains ''youtube'' (lower (clean_concept (fst nb))) \<longrightarrow>
            in_dependencies (get_graph_context s uid query) concept (clean_concept (fst nb))))
   \<and> (\<forall>c ctx. \<not> has_node (knowledge_graph s) (user_node uid c) \<longrightarrow>
          context_of_concept (knowledge_graph s) uid c ctx = ctx)"
proof -
  have rn: "related_notes (get_graph_context s uid query)
     = filed note_rule (visited (knowledge_graph s) uid query)"
    by (simp add: get_graph_context_visited notes_of_visits empty_context_def)
  have rv: "related_videos (get_graph_context s uid query)
     = filed (\<lambda>nb. \<not> note_rule nb \<and> video_rule nb) (visited (knowledge_graph s) uid query)"
    by (simp add: get_graph_context_visited videos_of_visits empty_context_def)
  have cd: "map_of (concept_dependencies (get_graph_context s uid query)) concept
     = (let ds = filed (\<lambda>nb. \<not> note_rule nb \<and> \<not> video_rule nb \<and> depends_rule nb)
                   (filter (\<lambda>v. fst v = concept) (visited (knowledge_graph s) uid query))
        in if ds = [] then None else Some ds)"
    by (simp add: get_graph_context_visited dependencies_of_visits empty_context_def Let_def)
  have lp: "learning_path (get_graph_context s uid query) = []"
    by (simp add: get_graph_context_visited learning_path_of_visits empty_context_def)
  have members: "(edge_relationship (snd nb) = ''note_resource'' \<longrightarrow>
            clean_concept (fst nb) \<in> set (related_notes (get_graph_context s uid query)))
        \<and> (contains ''day'' (lower (clean_concept (fst nb))) \<longrightarrow>
            clean_concept (fst nb) \<in> set (related_notes (get_graph_context s uid query)))
        \<and> (edge_relationship (snd nb) = ''video_resource''
             \<and> \<not> contains ''day'' (lower (clean_concept (fst nb))) \<longrightarrow>
            clean_concept (fst nb) \<in> set (related_videos (get_graph_context s uid query)))
        \<and> (contains ''depends'' (edge_relationship (snd nb))
             \<and> \<not> contains ''note'' (edge_relationship (snd nb))
             \<and> \<not> contains ''video'' (edge_relationship (snd nb))
             \<and> \<not> contains ''day'' (lower (clean_concept (fst nb)))
             \<and> \<not> contains ''youtube'' (lower (clean_concept (fst nb))) \<longrightarrow>
            in_dependencies (get_graph_context s uid query) concept (clean_concept (fst nb)))"
    if "concept \<in> set (extract_concepts query)"
      and "nb \<in> set (successors (knowledge_graph s) (user_node uid concept))"
    using neighbor_memberships [OF that] by blast
  have absent: "\<forall>c ctx. \<not> has_node (knowledge_graph s) (user_node uid c) \<longrightarrow>
          context_of_concept (knowledge_graph s) uid c ctx = ctx"
    by (simp add: context_of_concept_def)
  show ?thesis
    using rn rv cd lp members absent by blast
qed

theorem neighbor_classification_witness:
  "''python'' \<in> set (extract_concepts ''What is Python?'')
   \<and> (''1:drive/notes.pdf'', \<lparr>edge_relationship = ''note_resource'', edge_weight = 1\<rparr>)
        \<in> set (successors (knowledge_graph classified_world) (user_node 1 ''python''))
   \<and> (''1:intro_video'', \<lparr>edge_relationship = ''video_resource'', edge_weight = 1\<rparr>)
        \<in> set (successors (knowledge_graph classified_world) (user_node 1 ''python''))
   \<and> \<not> contains ''day'' (lower ''intro_video'')
   \<and> (''1:variables'', \<lparr>edge_relationship = ''depends_on'', edge_weight = 1\<rparr>)
        \<in> set (successors (knowledge_graph classified_world) (user_node 1 ''python''))
   \<and> contains ''depends'' ''depends_on''
   \<and> (''1:day_5'', \<lparr>edge_relationship = ''reverse_teaches'', edge_weight = 1\<rparr>)
        \<in> set (successors (knowledge_graph classified_world) (user_node 1 ''python''))
   \<and> contains ''day'' (lower ''day_5'')
   \<and> related_notes (get_graph_context classified_world 1 ''What is Python?'')
       = [''day_5'', ''drive/notes.pdf'']
   \<and> related_videos (get_graph_context classified_world 1 ''What is Python?'')
       = [''intro_video'']
   \<and> map_of (concept_dependencies (get_graph_context classified_world 1 ''What is Python?''))
         ''python'' = Some [''variables'']
   \<and> in_dependencies (get_graph_context classified_world 1 ''What is Python?'') ''python''
         ''variables''
   \<and> \<not> has_node (knowledge_graph classified_world) (user_node 1 ''loops'')
   \<and> context_of_concept (knowledge_graph classified_world) 1 ''loops'' empty_context
       = empty_context"
proof -
  have c: "''python'' \<in> set (extract_concepts ''What is Python?'')" by code_simp
  have n1: "(''1:drive/notes.pdf'', \<lparr>edge_relationship = ''note_resource'', edge_weight = 1\<rparr>)
        \<in> set (successors (knowledge_graph classified_world) (user_node 1 ''python''))" by code_simp
  have n2: "(''1:intro_video'', \<lparr>edge_relationship = ''video_resource'', edge_weight = 1\<rparr>)
        \<in> set (successors (knowledge_graph classified_world) (user_node 1 ''python''))" by code_simp
  have n3: "(''1:variables'', \<lparr>edge_relationship = ''depends_on'', edge_weight = 1\<rparr>)
        \<in> set (successors (knowledge_graph classified_world) (user_node 1 ''python''))" by code_simp
  have n4: "(''1:day_5'', \<lparr>edge_relationship = ''reverse_teaches'', edge_weight = 1\<rparr>)
        \<in> set (successors (knowledge_graph classified_world) (user_node 1 ''python''))" by code_simp
  have k: "clean_concept ''1:variables'' = ''variables''" by code_simp
  have t: "\<not> contains ''day'' (lower ''intro_video'')" "contains ''depends'' ''depends_on''"
    "\<not> contains ''note'' ''depends_on''" "\<not> contains ''video'' ''depends_on''"
    "\<not> contains ''day'' (lower ''variables'')" "\<not> contains ''youtube'' (lower ''variables'')"
    "contains ''day'' (lower ''day_5'')" by code_simp+
  have a: "\<not> has_node (knowledge_graph classified_world) (user_node 1 ''loops'')"
    by code_simp
  have f1: "filed note_rule (visited (knowledge_graph classified_world) 1 ''What is Python?'')
              = [''day_5'', ''drive/notes.pdf'']" by code_simp
  have f2: "filed (\<lambda>nb. \<not> note_rule nb \<and> video_rule nb)
              (visited (knowledge_graph classified_world) 1 ''What is Python?'')
              = [''intro_video'']" by code_simp
  have f3: "filed (\<lambda>nb. \<not> note_rule nb \<and> \<not> video_rule nb \<and> depends_rule nb)
              (filter (\<lambda>v. fst v = ''python'')
                 (visited (knowledge_graph classified_world) 1 ''What is Python?''))
              = [''variables'']" by code_simp
  note main = neighbor_classification
    [where s = classified_world and uid = 1 and query = "''What is Python?''"
       and concept = "''python''"
       and nb = "(''1:variables'', \<lparr>edge_relationship = ''depends_on'', edge_weight = 1\<rparr>)"]
  have rn: "related_notes (get_graph_context classified_world 1 ''What is Python?'')
       = [''day_5'', ''drive/notes.pdf'']"
    using main f1 by simp
  have rv: "related_videos (get_graph_context classified_world 1 ''What is Python?'')
       = [''intro_video'']"
    using main f2 by simp
  have cd: "map_of (concept_dependencies (get_graph_context classified_world 1 ''What is Python?''))
         ''python'' = Some [''variables'']"
    using main f3 by simp
  have dep_in: "in_dependencies (get_graph_context classified_world 1 ''What is Python?'') ''python''
         ''variables''"
    using main c n3 t by (simp add: k)
  have absent: "context_of_concept (knowledge_graph classified_world) 1 ''loops'' empty_context
       = empty_context"
    using main a by blast
  show ?thesis
    using c n1 n2 n3 n4 t a rn rv cd dep_in absent by simp
qed

text \<open>
  C7 as stated fails on the second and third rule: a video whose address contains \<open>day\<close>
  is filed under \<open>related_notes\<close>, and a dependency on a concept whose name contains
  \<open>youtube\<close> is filed under \<open>related_videos\<close>.
\<close>

theorem neighbor_classification_counterexample:
  "''python'' \<in> set (extract_concepts ''python'')
   \<and> get_edge_data (knowledge_graph misfiled_world) (user_node 1 ''python'')
        (user_node 1 ''youtube.com/monday_lecture'')
       = Some \<lparr>edge_relationship = ''video_resource'', edge_weight = 1\<rparr>
   \<and> ''youtube.com/monday_lecture''
        \<notin> set (related_videos (get_graph_context misfiled_world 1 ''python''))
   \<and> get_edge_data (knowledge_graph misfiled_world) (user_node 1 ''python'')
        (user_node 1 ''youtube_api'')
       = Some \<lparr>edge_relationship = ''depends_on'', edge_weight = 1\<rparr>
   \<and> \<not> in_dependencies (get_graph_context misfiled_world 1 ''python'') ''python'' ''youtube_api''
   \<and> get_graph_context misfiled_world 1 ''python''
       = \<lparr>related_notes = [''day_1'', ''youtube.com/monday_lecture''],
          related_videos = [''youtube_api''], concept_dependencies = [], learning_path = []\<rparr>"
  by code_simp

subsection \<open>What every call preserves\<close>

lemma perform_keeps:
  assumes insertion:
      "\<And>a t r w s. P s \<Longrightarrow> P (snd (add_to_graph_value clk (call_user c) a t r w s))"
    and frame: "\<And>s s'. knowledge_graph s' = knowledge_graph s \<Longrightarrow>
                  knowledge_graph_rows s' = knowledge_graph_rows s \<Longrightarrow> P s \<Longrightarrow> P s'"
    and p: "P s"
  shows "P (perform encode clk c s)"
proof -
  have step: "P (add_to_graph clk (call_user c) a b r w s)" if "P s" for a b r w s
    using insertion [OF that, of a "JStr b" r w] by (simp add: add_to_graph_value_text)
  have link: "P (link_concepts clk (call_user c) a b r s)" if "P s" for a b r s
    using that by (simp add: link_concepts_def Let_def step)
  have tick: "P (s\<lparr>ticks := n\<rparr>)" if "P s" for s n
    using that by (rule frame [rotated 2]) simp_all
  have entry: "P (snd (store_entry encode e s))" if "P s" for e s
    using that by (rule frame [rotated 2]) (simp_all add: store_entry_def split: option.splits)
  have from_result: "P (snd (link_from_result clk (call_user c) a res k r s))" if "P s" for a res k r s
    using that by (simp add: link_from_result_def insertion split: option.splits)
  have resource: "P (link_resource clk (call_user c) x r s)" if "P s" for x r s
    using that by (simp add: link_resource_def link)
  have folded: "P (fold f xs s)" if "P s" "\<And>x s. P s \<Longrightarrow> P (f x s)" for f :: "string \<Rightarrow> 'a world \<Rightarrow> 'a world" and xs s
    using that by (induction xs arbitrary: s) simp_all
  show ?thesis
  proof (cases c)
    case (StoreConversation u m r t)
    then show ?thesis using p
      by (simp add: store_conversation_def datetime_now_def Let_def entry tick)
  next
    case (StoreEpisodic u a res)
    define s1 where "s1 = s\<lparr>ticks := Suc (ticks s)\<rparr>"
    define e :: "'a MemoryEntry" where
      "e = \<lparr>user_id = call_user c, content = ''Action: '' @ a, memory_type = ''episodic'',
             metadata = JObj res, timestamp = clk (ticks s), embedding = None\<rparr>"
    obtain r2 s2 where se: "store_entry encode e s1 = (r2, s2)" by force
    obtain r3 s3 where l1:
      "link_from_result clk (call_user c) a res ''youtube_link'' ''created_link'' s2 = (r3, s3)"
      by force
    have p1: "P s1" unfolding s1_def using p by (rule tick)
    have p2: "P s2" using entry [OF p1, of e] se by simp
    have p3: "P s3" using from_result [OF p2, of a res "''youtube_link''" "''created_link''"] l1
      by simp
    have p4: "P (snd (link_from_result clk (call_user c) a res ''playlist_name''
                        ''created_playlist'' s3))"
      using p3 by (rule from_result)
    have "P (snd (store_episodic encode clk (call_user c) a res s))"
      unfolding store_episodic_def datetime_now_def Let_def prod.case
      unfolding s1_def [symmetric] e_def [symmetric]
      using p2 p3 p4 se l1 by (cases r2; cases r3; simp)
    then show ?thesis using StoreEpisodic by simp
  next
    case (StoreSemantic u x rel)
    define s1 where "s1 = s\<lparr>ticks := Suc (ticks s)\<rparr>"
    define e :: "'a MemoryEntry" where
      "e = \<lparr>user_id = call_user c, content = x, memory_type = ''semantic'',
             metadata = JObj [(''related_concepts'', JList (map JStr rel))],
             timestamp = clk (ticks s), embedding = None\<rparr>"
    obtain r2 s2 where se: "store_entry encode e s1 = (r2, s2)" by force
    have p1: "P s1" unfolding s1_def using p by (rule tick)
    have p2: "P s2" using entry [OF p1, of e] se by simp
    have p3: "P (fold (\<lambda>y. add_to_graph clk (call_user c) x y ''related_to'' 1) rel s2)"
      using p2 by (rule folded) (rule step)
    have "P (snd (store_semantic encode clk (call_user c) x rel s))"
      unfolding store_semantic_def datetime_now_def Let_def prod.case
      unfolding s1_def [symmetric] e_def [symmetric]
      using p2 p3 se by (cases r2; simp)
    then show ?thesis using StoreSemantic by simp
  next
    case (AddToGraph u a b r w)
    then show ?thesis using p step [of s a b r w] by simp
  next
    case (LinkConcepts u a b r)
    then show ?thesis using p link [of s a b r] by simp
  next
    case (CreateLearningPathGraph u d x rs)
    have "P (create_learning_path_graph clk (call_user c) d x rs s)"
      unfolding create_learning_path_graph_def Let_def
      by (rule folded) (simp_all add: link p resource)
    then show ?thesis using CreateLearningPathGraph by simp
  next
    case (CleanupOldMemories u d)
    have "P (snd (cleanup_old_memories clk u d s))"
      by (rule frame [OF _ _ p])
        (simp_all add: cleanup_old_memories_def datetime_now_def split: sum.splits)
    then show ?thesis using CleanupOldMemories by simp
  qed
qed

subsection \<open>Users are kept apart\<close>

lemma run_calls_keeps:
  assumes insertion: "\<And>c a t r w s. c \<in> set calls \<Longrightarrow> P s
                        \<Longrightarrow> P (snd (add_to_graph_value clk (call_user c) a t r w s))"
    and frame: "\<And>s s'. knowledge_graph s' = knowledge_graph s \<Longrightarrow>
                  knowledge_graph_rows s' = knowledge_graph_rows s \<Longrightarrow> P s \<Longrightarrow> P s'"
    and p: "P s"
  shows "P (run_calls encode clk calls s)"
  using insertion p unfolding run_calls_def
proof (induction calls arbitrary: s)
  case Nil
  then show ?case by simp
next
  case (Cons c calls)
  have "P (perform encode clk c s)"
    by (rule perform_keeps [where P = P, OF _ frame Cons.prems(2)]) (simp add: Cons.prems(1))
  then have "P (fold (perform encode clk) calls (perform encode clk c s))"
    by (intro Cons.IH) (simp_all add: Cons.prems(1))
  then show ?case by simp
qed

lemma graph_view_add_to_graph:
  "u \<noteq> u1 \<Longrightarrow> graph_view (add_to_graph clk u a b r w s) u1 = graph_view s u1"
  by (simp add: graph_view_def add_to_graph_fields successors_add_edge user_node_inj)

lemma graph_view_add_to_graph_value:
  assumes "u \<noteq> u1"
  shows "graph_view (snd (add_to_graph_value clk u a t r w s)) u1 = graph_view s u1"
  using add_to_graph_value_cases [of clk u a t r w s] assms
  by (auto simp: graph_view_def successors_add_edge user_node_inj)

lemma graph_view_run_calls:
  assumes "\<forall>c \<in> set calls. call_user c \<noteq> u1"
  shows "graph_view (run_calls encode clk calls s) u1 = graph_view s u1"
proof (rule run_calls_keeps [where P = "\<lambda>t. graph_view t u1 = graph_view s u1"])
  fix c a v r w t
  assume "c \<in> set calls" and "graph_view t u1 = graph_view s u1"
  then show "graph_view (snd (add_to_graph_value clk (call_user c) a v r w t)) u1
               = graph_view s u1"
    using assms by (simp add: graph_view_add_to_graph_value)
next
  fix t t' :: "'a world"
  assume "knowledge_graph t' = knowledge_graph t"
    and "knowledge_graph_rows t' = knowledge_graph_rows t"
    and "graph_view t u1 = graph_view s u1"
  then show "graph_view t' u1 = graph_view s u1"
    by (simp add: graph_view_def)
qed simp

lemma related_from_view:
  "get_related_concepts s u x = map (clean_concept \<circ> fst) (fst (graph_view s u) x)"
  by (simp add: get_related_concepts_eq neighbors_def graph_view_def)

lemma context_from_view:
  "get_graph_context s u q
     = fold (\<lambda>c. fold (classify_neighbor c) (fst (graph_view s u) c)) (extract_concepts q)
         empty_context"
proof -
  have "context_of_concept (knowledge_graph s) u = (\<lambda>c. fold (classify_neighbor c) (fst (graph_view s u) c))"
    by (intro ext) (simp add: context_of_concept_eq graph_view_def)
  then show ?thesis by (simp add: get_graph_context_def)
qed

lemma node_owner_user_node: "node_owner (user_node u a) = str_int u"
proof -
  have "takeWhile (\<lambda>c. c \<noteq> CHR '':'') (str_int u @ CHR '':'' # a) = str_int u"
    using colon_notin_str_int [of u] by (subst takeWhile_append2) auto
  then show ?thesis by (simp add: node_owner_def user_node_def)
qed

lemma set_set_successor: "set (set_successor adj v d) \<subseteq> insert (v, d) (set adj)"
  by (auto simp: set_successor_def split: if_splits)

lemma set_add_node: "set (add_node g n) \<subseteq> insert (n, []) (set g)"
  by (auto simp: add_node_def)

lemma edges_within_user_add_edge:
  assumes inv: "edges_within_user g" and own: "node_owner v = node_owner u"
  shows "edges_within_user (add_edge g u v d)"
  unfolding edges_within_user_def
proof (intro ballI, clarify)
  fix n adj m e
  assume in_g: "(n, adj) \<in> set (add_edge g u v d)" and in_adj: "(m, e) \<in> set adj"
  from in_g obtain adj0 where a0: "(n, adj0) \<in> set (add_node (add_node g u) v)"
    and adj: "adj = (if n = u then set_successor adj0 v d else adj0)"
    by (auto simp: add_edge_def split: if_splits)
  from a0 set_add_node [of "add_node g u" v] set_add_node [of g u]
  have src: "(n, adj0) \<in> set g \<or> adj0 = []" by auto
  have old: "node_owner m' = node_owner n" if "(m', e') \<in> set adj0" for m' e'
    using src that inv by (auto simp: edges_within_user_def)
  show "node_owner m = node_owner n"
  proof (cases "n = u")
    case True
    with adj in_adj set_set_successor [of adj0 v d] have "(m, e) = (v, d) \<or> (m, e) \<in> set adj0"
      by auto
    then show ?thesis using old own True by auto
  next
    case False
    with adj in_adj show ?thesis using old by simp
  qed
qed

lemma edges_within_user_add_to_graph_value:
  assumes "edges_within_user (knowledge_graph s)"
  shows "edges_within_user (knowledge_graph (snd (add_to_graph_value clk u a t r w s)))"
  using add_to_graph_value_cases [of clk u a t r w s] assms
  by (auto simp: edges_within_user_add_edge node_owner_user_node)

lemma edges_within_user_run_calls:
  "edges_within_user (knowledge_graph s)
     \<Longrightarrow> edges_within_user (knowledge_graph (run_calls encode clk calls s))"
  by (rule run_calls_keeps [where P = "\<lambda>t. edges_within_user (knowledge_graph t)"])
    (simp_all add: edges_within_user_add_to_graph_value)

text \<open>
  C9. Whatever calls other users make, and whatever labels and link values they pass,
  user 1 reads the same: \<open>get_related_concepts(1, concept)\<close> and \<open>get_graph_context(1, query)\<close> are
  unchanged, as are the successors of each of user 1's nodes and user 1's rows of the
  table. No edge of the mirror joins nodes of different users: every call keeps the edges
  within one user, so this holds in every state reached from the empty one.
\<close>

theorem cross_user_noninterference:
  "((\<forall>c \<in> set calls. call_user c \<noteq> u1) \<longrightarrow>
      get_related_concepts (run_calls encode clk calls s) u1 concept
        = get_related_concepts s u1 concept
      \<and> get_graph_context (run_calls encode clk calls s) u1 query = get_graph_context s u1 query
      \<and> graph_view (run_calls encode clk calls s) u1 = graph_view s u1)
   \<and> (edges_within_user (knowledge_graph s) \<longrightarrow>
        edges_within_user (knowledge_graph (run_calls encode clk calls s)))
   \<and> edges_within_user (knowledge_graph (run_calls encode clk calls init_world))"
proof -
  have "edges_within_user (knowledge_graph (init_world :: 'a world))"
    by (simp add: init_world_def edges_within_user_def)
  then have "edges_within_user (knowledge_graph (run_calls encode clk calls init_world))"
    by (rule edges_within_user_run_calls)
  then show ?thesis
    by (auto simp: related_from_view context_from_view graph_view_run_calls
        edges_within_user_run_calls)
qed

theorem cross_user_noninterference_witness:
  "map call_user user2_calls = [2, 2, 2, 2]
   \<and> get_related_concepts (run_calls unit_encoder tick_clock user2_calls user1_world) 2 ''python''
       = [''django'', ''flask'', ''day_1'', ''youtube.com/intro'', ''5'', ''None'']
   \<and> get_related_concepts user1_world 1 ''python'' = [''numpy'']
   \<and> get_related_concepts (run_calls unit_encoder tick_clock user2_calls user1_world) 1 ''python''
       = [''numpy'']
   \<and> get_graph_context (run_calls unit_encoder tick_clock user2_calls user1_world) 1 ''python''
       = get_graph_context user1_world 1 ''python''
   \<and> edges_within_user (knowledge_graph user1_world)
   \<and> edges_within_user
        (knowledge_graph (run_calls unit_encoder tick_clock user2_calls user1_world))"
proof -
  have h: "\<forall>c \<in> set user2_calls. call_user c \<noteq> 1"
    by (simp add: user2_calls_def)
  have r: "get_related_concepts user1_world 1 ''python'' = [''numpy'']"
    by code_simp
  have e: "edges_within_user (knowledge_graph user1_world)"
    by code_simp
  have u: "map call_user user2_calls = [2, 2, 2, 2]"
    by (simp add: user2_calls_def)
  have w: "get_related_concepts (run_calls unit_encoder tick_clock user2_calls user1_world) 2
      ''python'' = [''django'', ''flask'', ''day_1'', ''youtube.com/intro'', ''5'', ''None'']"
    by code_simp
  show ?thesis
    using h r e u w
      cross_user_noninterference
        [of user2_calls 1 unit_encoder tick_clock user1_world "''python''" "''python''"]
    by simp
qed

subsection \<open>Retention sweep\<close>

lemma cleanup_success:
  "cutoff_date (clk (ticks s)) days = Inr cutoff \<Longrightarrow>
   cleanup_old_memories clk u days s
     = (Inr (), s\<lparr>ticks := Suc (ticks s),
                  memory_entries := filter (\<lambda>r. \<not> swept u cutoff r) (memory_entries s)\<rparr>)"
  by (simp add: cleanup_old_memories_def datetime_now_def)

lemma cutoff_date_value:
  "cutoff_date now days = Inr cutoff \<Longrightarrow> cutoff = now - days * 86400000000"
  by (auto simp: cutoff_date_def Let_def split: if_splits)

text \<open>
  C3. When \<open>now - timedelta(days)\<close> is a date, \<open>cleanup_old_memories(user, days)\<close> returns
  and deletes exactly the rows of that user whose type is \<open>conversation\<close> and whose
  timestamp is before that cutoff. Rows of any other type, the table of edges and the
  in-memory graph are unchanged whatever their age, and a second sweep with the same
  cutoff deletes nothing.
\<close>

theorem sweep_deletes_old_conversations_only:
  assumes "cutoff_date (clk (ticks s)) days = Inr cutoff"
  shows "cutoff = clk (ticks s) - days * 86400000000
    \<and> fst (cleanup_old_memories clk u days s) = Inr ()
    \<and> memory_entries (snd (cleanup_old_memories clk u days s))
        = filter (\<lambda>r. \<not> (row_user_id r = u \<and> row_memory_type r = ''conversation''
                          \<and> row_timestamp r < cutoff)) (memory_entries s)
    \<and> filter (\<lambda>r. row_memory_type r \<noteq> ''conversation'')
          (memory_entries (snd (cleanup_old_memories clk u days s)))
        = filter (\<lambda>r. row_memory_type r \<noteq> ''conversation'') (memory_entries s)
    \<and> knowledge_graph_rows (snd (cleanup_old_memories clk u days s)) = knowledge_graph_rows s
    \<and> knowledge_graph (snd (cleanup_old_memories clk u days s)) = knowledge_graph s
    \<and> (\<forall>clk' days'.
          cutoff_date (clk' (ticks (snd (cleanup_old_memories clk u days s)))) days' = Inr cutoff
          \<longrightarrow> fst (cleanup_old_memories clk' u days' (snd (cleanup_old_memories clk u days s)))
                = Inr ()
              \<and> memory_entries
                  (snd (cleanup_old_memories clk' u days' (snd (cleanup_old_memories clk u days s))))
                = memory_entries (snd (cleanup_old_memories clk u days s)))"
proof -
  have keep: "filter (\<lambda>r. row_memory_type r \<noteq> ''conversation'')
                (filter (\<lambda>r. \<not> swept u cutoff r) (memory_entries s))
              = filter (\<lambda>r. row_memory_type r \<noteq> ''conversation'') (memory_entries s)"
    unfolding filter_filter by (rule filter_cong) (auto simp: swept_def)
  have sw: "(\<lambda>r. \<not> swept u cutoff r)
             = (\<lambda>r :: 'a memory_row. \<not> (row_user_id r = u \<and> row_memory_type r = ''conversation''
                          \<and> row_timestamp r < cutoff))"
    by (auto simp: swept_def)
  have first: "cleanup_old_memories clk u days s
     = (Inr (), s\<lparr>ticks := Suc (ticks s),
                  memory_entries := filter (\<lambda>r. \<not> swept u cutoff r) (memory_entries s)\<rparr>)"
    using assms by (rule cleanup_success)
  have again: "cleanup_old_memories clk' u days' (snd (cleanup_old_memories clk u days s))
      = (Inr (), (snd (cleanup_old_memories clk u days s))
           \<lparr>ticks := Suc (ticks (snd (cleanup_old_memories clk u days s))),
            memory_entries := filter (\<lambda>r. \<not> swept u cutoff r)
               (memory_entries (snd (cleanup_old_memories clk u days s)))\<rparr>)"
    if "cutoff_date (clk' (ticks (snd (cleanup_old_memories clk u days s)))) days' = Inr cutoff"
    for clk' days'
    using that by (rule cleanup_success)
  have cv: "cutoff = clk (ticks s) - days * 86400000000"
    using assms by (rule cutoff_date_value)
  show ?thesis
  proof (intro conjI allI impI)
    show "cutoff = clk (ticks s) - days * 86400000000" by (rule cv)
    show "fst (cleanup_old_memories clk u days s) = Inr ()" by (simp add: first)
    show "memory_entries (snd (cleanup_old_memories clk u days s))
        = filter (\<lambda>r. \<not> (row_user_id r = u \<and> row_memory_type r = ''conversation''
                          \<and> row_timestamp r < cutoff)) (memory_entries s)"
      by (simp add: first sw)
    show "filter (\<lambda>r. row_memory_type r \<noteq> ''conversation'')
          (memory_entries (snd (cleanup_old_memories clk u days s)))
        = filter (\<lambda>r. row_memory_type r \<noteq> ''conversation'') (memory_entries s)"
      using keep by (simp add: first)
    show "knowledge_graph_rows (snd (cleanup_old_memories clk u days s)) = knowledge_graph_rows s"
      by (simp add: first)
    show "knowledge_graph (snd (cleanup_old_memories clk u days s)) = knowledge_graph s"
      by (simp add: first)
  next
    fix clk' days'
    assume c: "cutoff_date (clk' (ticks (snd (cleanup_old_memories clk u days s)))) days'
                 = Inr cutoff"
    show "fst (cleanup_old_memories clk' u days' (snd (cleanup_old_memories clk u days s)))
                = Inr ()"
      using c by (simp add: again)
    show "memory_entries
            (snd (cleanup_old_memories clk' u days' (snd (cleanup_old_memories clk u days s))))
          = memory_entries (snd (cleanup_old_memories clk u days s))"
      using c by (simp add: again) (simp add: first)
  qed
qed

theorem sweep_deletes_old_conversations_only_witness:
  "cutoff_date (forty_days_later (ticks retention_world)) 30 = Inr (730010 * 86400000000)
   \<and> fst (cleanup_old_memories forty_days_later 1 30 retention_world) = Inr ()
   \<and> map row_content (memory_entries (snd (cleanup_old_memories forty_days_later 1 30 retention_world)))
       = [''Action: get_notes'']
   \<and> knowledge_graph_rows (snd (cleanup_old_memories forty_days_later 1 30 retention_world))
       = knowledge_graph_rows retention_world
   \<and> knowledge_graph (snd (cleanup_old_memories forty_days_later 1 30 retention_world))
       = knowledge_graph retention_world
   \<and> memory_entries
        (snd (cleanup_old_memories forty_days_later 1 30
               (snd (cleanup_old_memories forty_days_later 1 30 retention_world))))
       = memory_entries (snd (cleanup_old_memories forty_days_later 1 30 retention_world))"
proof -
  have c: "cutoff_date (forty_days_later (ticks retention_world)) 30 = Inr (730010 * 86400000000)"
    by (simp add: cutoff_date_def forty_days_later_def max_datetime_def)
  have c': "cutoff_date
      (forty_days_later (ticks (snd (cleanup_old_memories forty_days_later 1 30 retention_world)))) 30
        = Inr (730010 * 86400000000)"
    by (simp add: cutoff_date_def forty_days_later_def max_datetime_def)
  have m: "map row_content
      (filter (\<lambda>r. \<not> (row_user_id r = 1 \<and> row_memory_type r = ''conversation''
                          \<and> row_timestamp r < 730010 * 86400000000)) (memory_entries retention_world))
       = [''Action: get_notes'']"
    by (simp add: retention_world_def)
  show ?thesis
    using sweep_deletes_old_conversations_only
      [where clk = forty_days_later and s = retention_world and days = 30
         and cutoff = "730010 * 86400000000" and u = 1] c c' m
    by simp
qed

subsection \<open>Recall of conversations\<close>

lemma recall_conversation_eq:
  "recall_conversation s uid limit
     = map recalled_of
         (sql_limit limit
            (sort_key (\<lambda>r. - row_timestamp r)
               (filter (\<lambda>r. row_user_id r = uid \<and> row_memory_type r = ''conversation'')
                  (memory_entries s))))"
  by (simp add: recall_conversation_def Let_def fold_snoc_map recalled_of_def)

lemma sql_limit_all: "limit < 0 \<or> length xs \<le> nat limit \<Longrightarrow> sql_limit limit xs = xs"
  by (auto simp: sql_limit_def)

lemma newest_first:
  "sorted_wrt (\<lambda>a b. rc_timestamp b \<le> rc_timestamp a) (recall_conversation s uid limit)"
proof -
  let ?rows = "sort_key (\<lambda>r. - row_timestamp r)
       (filter (\<lambda>r. row_user_id r = uid \<and> row_memory_type r = ''conversation'') (memory_entries s))"
  have "sorted (map (\<lambda>r. - row_timestamp r) ?rows)" by (rule sorted_sort_key)
  then have "sorted_wrt (\<lambda>a b. row_timestamp b \<le> row_timestamp a) ?rows"
    by (simp add: sorted_map)
  then have "sorted_wrt (\<lambda>a b. row_timestamp b \<le> row_timestamp a) (sql_limit limit ?rows)"
    by (auto simp: sql_limit_def intro: sorted_wrt_take)
  then show ?thesis
    by (simp add: recall_conversation_eq sorted_wrt_map recalled_of_def)
qed

lemma recall_finds_row:
  assumes row: "row \<in> set (memory_entries s)"
    and mine: "row_user_id row = uid" "row_memory_type row = ''conversation''"
    and lim: "limit < 0 \<or> length (filter (\<lambda>r. row_user_id r = uid
                 \<and> row_memory_type r = ''conversation'') (memory_entries s)) \<le> nat limit"
  shows "recalled_of row \<in> set (recall_conversation s uid limit)"
proof -
  let ?conv = "filter (\<lambda>r. row_user_id r = uid \<and> row_memory_type r = ''conversation'')
                 (memory_entries s)"
  have "sql_limit limit (sort_key (\<lambda>r. - row_timestamp r) ?conv)
          = sort_key (\<lambda>r. - row_timestamp r) ?conv"
    using lim by (intro sql_limit_all) simp
  moreover have "row \<in> set (sort_key (\<lambda>r. - row_timestamp r) ?conv)"
    using row mine by simp
  ultimately show ?thesis
    by (simp add: recall_conversation_eq)
qed

lemma store_conversation_success:
  "encode (''User: '' @ m @ [CHR 0x0A] @ ''AI: '' @ r) = Some v \<Longrightarrow>
   store_conversation encode clk uid m r tools s
     = (Inr (),
        s\<lparr>ticks := Suc (ticks s),
          memory_entries := memory_entries s @
            [\<lparr>row_user_id = uid, row_content = ''User: '' @ m @ [CHR 0x0A] @ ''AI: '' @ r,
              row_memory_type = ''conversation'',
              row_metadata =
                JObj [(''user_message'', JStr m), (''ai_response'', JStr r),
                      (''tools_used'',
                         JList (map JStr (case tools of None \<Rightarrow> [] | Some ts \<Rightarrow> ts)))],
              row_timestamp = clk (ticks s), row_embedding = v\<rparr>]\<rparr>)"
  by (simp add: store_conversation_def store_entry_def datetime_now_def Let_def)

text \<open>
  C8. After \<open>store_conversation(u, msg, reply, tools)\<close> has stored its entry,
  \<open>recall_conversation(u, limit)\<close> with a limit that covers the user's conversations (or a
  negative one, which SQLite reads as no limit) returns an entry with the content and
  metadata that were stored, and for every limit the entries returned are ordered newest
  first.
\<close>

theorem conversation_round_trip:
  assumes enc: "encode (''User: '' @ user_message @ [CHR 0x0A] @ ''AI: '' @ ai_response) = Some v"
    and lim: "limit < 0 \<or> length (filter (\<lambda>r. row_user_id r = uid
                 \<and> row_memory_type r = ''conversation'') (memory_entries s)) < nat limit"
  shows "fst (store_conversation encode clk uid user_message ai_response tools_used s) = Inr ()
    \<and> \<lparr>rc_content = ''User: '' @ user_message @ [CHR 0x0A] @ ''AI: '' @ ai_response,
        rc_metadata =
          JObj [(''user_message'', JStr user_message), (''ai_response'', JStr ai_response),
                (''tools_used'',
                   JList (map JStr (case tools_used of None \<Rightarrow> [] | Some ts \<Rightarrow> ts)))],
        rc_timestamp = clk (ticks s)\<rparr>
        \<in> set (recall_conversation
                 (snd (store_conversation encode clk uid user_message ai_response tools_used s))
                 uid limit)
    \<and> (\<forall>k. sorted_wrt (\<lambda>a b. rc_timestamp b \<le> rc_timestamp a)
             (recall_conversation
                (snd (store_conversation encode clk uid user_message ai_response tools_used s))
                uid k))"
proof -
  let ?row = "\<lparr>row_user_id = uid,
      row_content = ''User: '' @ user_message @ [CHR 0x0A] @ ''AI: '' @ ai_response,
      row_memory_type = ''conversation'',
      row_metadata =
        JObj [(''user_message'', JStr user_message), (''ai_response'', JStr ai_response),
              (''tools_used'',
                 JList (map JStr (case tools_used of None \<Rightarrow> [] | Some ts \<Rightarrow> ts)))],
      row_timestamp = clk (ticks s), row_embedding = v\<rparr>"
  let ?s' = "snd (store_conversation encode clk uid user_message ai_response tools_used s)"
  have st: "store_conversation encode clk uid user_message ai_response tools_used s
              = (Inr (), s\<lparr>ticks := Suc (ticks s), memory_entries := memory_entries s @ [?row]\<rparr>)"
    using enc by (rule store_conversation_success)
  have "recalled_of ?row \<in> set (recall_conversation ?s' uid limit)"
    using lim by (intro recall_finds_row) (auto simp: st)
  then show ?thesis
    by (simp add: newest_first) (simp add: st recalled_of_def)
qed

theorem conversation_round_trip_witness:
  "unit_encoder (''User: '' @ ''again'' @ [CHR 0x0A] @ ''AI: '' @ ''sure'') = Some ()
   \<and> length (filter (\<lambda>r. row_user_id r = 1 \<and> row_memory_type r = ''conversation'')
        (memory_entries retention_world)) < nat 10
   \<and> recall_conversation
        (snd (store_conversation unit_encoder forty_days_later 1 ''again'' ''sure''
                (Some [''get_notes'']) retention_world)) 1 10
      = [\<lparr>rc_content = ''User: again'' @ [CHR 0x0A] @ ''AI: sure'',
          rc_metadata =
            JObj [(''user_message'', JStr ''again''), (''ai_response'', JStr ''sure''),
                  (''tools_used'', JList [JStr ''get_notes''])],
          rc_timestamp = 730040 * 86400000000\<rparr>,
         \<lparr>rc_content = ''User: hi'' @ [CHR 0x0A] @ ''AI: hello'', rc_metadata = JObj [],
          rc_timestamp = 730000 * 86400000000\<rparr>]"
proof -
  have e: "unit_encoder (''User: '' @ ''again'' @ [CHR 0x0A] @ ''AI: '' @ ''sure'') = Some ()"
    by (simp add: unit_encoder_def)
  have l: "(10::int) < 0 \<or> length (filter (\<lambda>r. row_user_id r = 1 \<and> row_memory_type r = ''conversation'')
        (memory_entries retention_world)) < nat 10"
    by (simp add: retention_world_def)
  have v: "recall_conversation
        (snd (store_conversation unit_encoder forty_days_later 1 ''again'' ''sure''
                (Some [''get_notes'']) retention_world)) 1 10
      = [\<lparr>rc_content = ''User: again'' @ [CHR 0x0A] @ ''AI: sure'',
          rc_metadata =
            JObj [(''user_message'', JStr ''again''), (''ai_response'', JStr ''sure''),
                  (''tools_used'', JList [JStr ''get_notes''])],
          rc_timestamp = 730040 * 86400000000\<rparr>,
         \<lparr>rc_content = ''User: hi'' @ [CHR 0x0A] @ ''AI: hello'', rc_metadata = JObj [],
          rc_timestamp = 730000 * 86400000000\<rparr>]"
    by code_simp
  show ?thesis
    using conversation_round_trip
      [where encode = unit_encoder and user_message = "''again''" and ai_response = "''sure''"
         and v = "()" and limit = 10 and uid = 1 and s = retention_world
         and clk = forty_days_later and tools_used = "Some [''get_notes'']"] e l v
    by simp
qed

subsection \<open>Similarity search\<close>

lemma fold_search_step:
  "fold (search_step cosine qe) rows acc
     = acc @ map (found_of cosine qe) (filter (relevant cosine qe) rows)"
  by (induction rows arbitrary: acc)
    (auto simp: search_step_def relevant_def found_of_def split: option.splits)

lemma semantic_search_eq:
  "encode query = Some qe \<Longrightarrow>
   semantic_search encode cosine s uid query limit
     = Inr (slice_to limit
         (sort_key (\<lambda>x. - similarity x)
            (map (found_of cosine qe)
               (filter (\<lambda>r. row_user_id r = uid \<and> relevant cosine qe r) (memory_entries s)))))"
  by (simp add: semantic_search_def Let_def fold_search_step)

lemma slice_to_take: "\<exists>n. slice_to k xs = take n xs"
  by (auto simp: slice_to_def)

lemma similarity_found_of:
  "relevant cosine qe r \<Longrightarrow> 1 / 2 < similarity (found_of cosine qe r)"
  by (auto simp: relevant_def found_of_def split: option.splits)

text \<open>
  C2. When the query can be embedded, \<open>semantic_search(u, q, k)\<close> with a limit \<open>k\<close> that is
  not negative returns the entries of user \<open>u\<close> whose similarity to the query is strictly
  greater than 0.5, sorted by similarity descending, truncated to the first \<open>k\<close>. For
  every limit the call returns a list (possibly empty), never an entry with similarity at
  most 0.5 or of another user, and the list is sorted by similarity descending.
\<close>

theorem search_filters_sorts_truncates:
  assumes enc: "encode query = Some qe"
  shows "(0 \<le> limit \<longrightarrow>
            semantic_search encode cosine s uid query limit
              = Inr (search_spec cosine qe s uid (nat limit)))
    \<and> (\<exists>res. semantic_search encode cosine s uid query limit = Inr res
          \<and> (\<forall>x \<in> set res. 1 / 2 < similarity x)
          \<and> sorted_wrt (\<lambda>a b. similarity b \<le> similarity a) res
          \<and> set res \<subseteq> found_of cosine qe `
                {r \<in> set (memory_entries s). row_user_id r = uid \<and> relevant cosine qe r})
    \<and> length (search_spec cosine qe s uid (nat limit))
        = min (nat limit)
            (length (filter (\<lambda>r. row_user_id r = uid \<and> relevant cosine qe r) (memory_entries s)))"
proof -
  let ?all = "sort_key (\<lambda>x. - similarity x)
            (map (found_of cosine qe)
               (filter (\<lambda>r. row_user_id r = uid \<and> relevant cosine qe r) (memory_entries s)))"
  obtain n where n: "slice_to limit ?all = take n ?all"
    using slice_to_take by blast
  have set_all: "set ?all = found_of cosine qe `
                {r \<in> set (memory_entries s). row_user_id r = uid \<and> relevant cosine qe r}"
    by auto
  have "sorted (map (\<lambda>x. - similarity x) ?all)" by (rule sorted_sort_key)
  then have "sorted_wrt (\<lambda>a b. similarity b \<le> similarity a) ?all"
    by (simp add: sorted_map)
  then have sorted_res: "sorted_wrt (\<lambda>a b. similarity b \<le> similarity a) (take n ?all)"
    by (rule sorted_wrt_take)
  have sub: "set (take n ?all) \<subseteq> set ?all" by (rule set_take_subset)
  have floor: "\<forall>x \<in> set (take n ?all). 1 / 2 < similarity x"
    using sub set_all similarity_found_of by fastforce
  have 1: "0 \<le> limit \<longrightarrow> semantic_search encode cosine s uid query limit
              = Inr (search_spec cosine qe s uid (nat limit))"
    using enc by (simp add: semantic_search_eq search_spec_def slice_to_def)
  have 2: "\<exists>res. semantic_search encode cosine s uid query limit = Inr res
          \<and> (\<forall>x \<in> set res. 1 / 2 < similarity x)
          \<and> sorted_wrt (\<lambda>a b. similarity b \<le> similarity a) res
          \<and> set res \<subseteq> found_of cosine qe `
                {r \<in> set (memory_entries s). row_user_id r = uid \<and> relevant cosine qe r}"
    using floor sorted_res sub set_all enc
    by (intro exI [of _ "take n ?all"]) (simp add: semantic_search_eq n)
  have 3: "length (search_spec cosine qe s uid (nat limit))
        = min (nat limit)
            (length (filter (\<lambda>r. row_user_id r = uid \<and> relevant cosine qe r) (memory_entries s)))"
    by (simp add: search_spec_def min.commute)
  show ?thesis using 1 2 3 by blast
qed

theorem search_filters_sorts_truncates_witness:
  "one_encoder ''recursion'' = Some 1 \<and> (0::int) \<le> 5
   \<and> semantic_search one_encoder stored_score search_world 1 ''recursion'' 5
       = Inr [\<lparr>f_content = ''recursion'', f_metadata = JObj [], f_timestamp = 4,
               similarity = 9 / 10\<rparr>,
             \<lparr>f_content = ''loops'', f_metadata = JObj [], f_timestamp = 1,
               similarity = 3 / 4\<rparr>]
   \<and> search_spec stored_score 1 search_world 1 (nat 5)
       = [\<lparr>f_content = ''recursion'', f_metadata = JObj [], f_timestamp = 4,
            similarity = 9 / 10\<rparr>,
          \<lparr>f_content = ''loops'', f_metadata = JObj [], f_timestamp = 1,
            similarity = 3 / 4\<rparr>]"
proof -
  have e: "one_encoder ''recursion'' = Some 1" by (simp add: one_encoder_def)
  have v: "search_spec stored_score 1 search_world 1 (nat 5)
       = [\<lparr>f_content = ''recursion'', f_metadata = JObj [], f_timestamp = 4,
            similarity = 9 / 10\<rparr>,
          \<lparr>f_content = ''loops'', f_metadata = JObj [], f_timestamp = 1,
            similarity = 3 / 4\<rparr>]"
    by code_simp
  show ?thesis
    using search_filters_sorts_truncates
      [where encode = one_encoder and query = "''recursion''" and qe = 1 and limit = 5
         and cosine = stored_score and s = search_world and uid = 1] e v
    by simp
qed

end
